theory Spec2Isabelle
  imports Complex_Main "HOL-Library.Char_ord" "HOL-Library.List_Lexorder" "HOL-Library.Multiset"
begin

section \<open>Floating-point values of a pandas column\<close>

text \<open>
  A cell of a pandas float column is a finite number, an infinity or NaN (pandas' marker
  of a missing value). Finite numbers are modelled as exact reals: rounding, overflow and
  the sign of zero are abstracted (zero is the positive zero). The special values follow
  IEEE 754, which numpy applies without raising: \<open>x / 0\<close> is an infinity or NaN,
  \<open>inf - inf\<close> and \<open>inf * 0\<close> are NaN, and every comparison with NaN is false.
\<close>

datatype fl = NaN | NInf | Fin real | PInf

fun isnan :: "fl \<Rightarrow> bool" where
  "isnan NaN = True"
| "isnan NInf = False"
| "isnan (Fin x) = False"
| "isnan PInf = False"

fun fneg :: "fl \<Rightarrow> fl" where
  "fneg NaN = NaN"
| "fneg NInf = PInf"
| "fneg (Fin x) = Fin (- x)"
| "fneg PInf = NInf"

fun fabs :: "fl \<Rightarrow> fl" where
  "fabs NaN = NaN"
| "fabs NInf = PInf"
| "fabs (Fin x) = Fin \<bar>x\<bar>"
| "fabs PInf = PInf"

fun fadd :: "fl \<Rightarrow> fl \<Rightarrow> fl" where
  "fadd (Fin x) (Fin y) = Fin (x + y)"
| "fadd NaN b = NaN"
| "fadd a NaN = NaN"
| "fadd PInf NInf = NaN"
| "fadd NInf PInf = NaN"
| "fadd PInf b = PInf"
| "fadd a PInf = PInf"
| "fadd NInf b = NInf"
| "fadd a NInf = NInf"

definition fsub :: "fl \<Rightarrow> fl \<Rightarrow> fl" where
  "fsub a b = fadd a (fneg b)"

fun fmul :: "fl \<Rightarrow> fl \<Rightarrow> fl" where
  "fmul (Fin x) (Fin y) = Fin (x * y)"
| "fmul NaN b = NaN"
| "fmul a NaN = NaN"
| "fmul PInf (Fin y) = (if 0 < y then PInf else if y < 0 then NInf else NaN)"
| "fmul NInf (Fin y) = (if 0 < y then NInf else if y < 0 then PInf else NaN)"
| "fmul (Fin x) PInf = (if 0 < x then PInf else if x < 0 then NInf else NaN)"
| "fmul (Fin x) NInf = (if 0 < x then NInf else if x < 0 then PInf else NaN)"
| "fmul PInf PInf = PInf"
| "fmul PInf NInf = NInf"
| "fmul NInf PInf = NInf"
| "fmul NInf NInf = PInf"

fun fdiv :: "fl \<Rightarrow> fl \<Rightarrow> fl" where
  "fdiv (Fin x) (Fin y) =
     (if y \<noteq> 0 then Fin (x / y)
      else if 0 < x then PInf else if x < 0 then NInf else NaN)"
| "fdiv NaN b = NaN"
| "fdiv a NaN = NaN"
| "fdiv (Fin x) PInf = Fin 0"
| "fdiv (Fin x) NInf = Fin 0"
| "fdiv PInf (Fin y) = (if 0 \<le> y then PInf else NInf)"
| "fdiv NInf (Fin y) = (if 0 \<le> y then NInf else PInf)"
| "fdiv PInf b = NaN"
| "fdiv NInf b = NaN"

fun fsqrt :: "fl \<Rightarrow> fl" where
  "fsqrt NaN = NaN"
| "fsqrt NInf = NaN"
| "fsqrt (Fin x) = (if 0 \<le> x then Fin (sqrt x) else NaN)"
| "fsqrt PInf = PInf"

fun flt :: "fl \<Rightarrow> fl \<Rightarrow> bool" where
  "flt (Fin x) (Fin y) = (x < y)"
| "flt NaN b = False"
| "flt a NaN = False"
| "flt a NInf = False"
| "flt PInf b = False"
| "flt NInf b = True"
| "flt a PInf = True"

definition fgt :: "fl \<Rightarrow> fl \<Rightarrow> bool" where
  "fgt a b = flt b a"

text \<open>\<open>np.maximum\<close> and \<open>np.minimum\<close>: NaN if either argument is NaN.\<close>

definition fmax :: "fl \<Rightarrow> fl \<Rightarrow> fl" where
  "fmax a b = (if isnan a \<or> isnan b then NaN else if flt a b then b else a)"

definition fmin :: "fl \<Rightarrow> fl \<Rightarrow> fl" where
  "fmin a b = (if isnan a \<or> isnan b then NaN else if flt b a then b else a)"

section \<open>Column operations of pandas and numpy\<close>

text \<open>\<open>Series.shift(1)\<close>: every value moves one row down, the first row becomes NaN.\<close>

definition shift1 :: "fl list \<Rightarrow> fl list" where
  "shift1 xs = take (length xs) (NaN # xs)"

text \<open>\<open>Series.pct_change()\<close> is \<open>x / x.shift(1) - 1\<close>; \<open>Series.diff()\<close> is
  \<open>x - x.shift(1)\<close>.\<close>

definition pct_change :: "fl list \<Rightarrow> fl list" where
  "pct_change xs = map2 (\<lambda>x p. fsub (fdiv x p) (Fin 1)) xs (shift1 xs)"

definition diff :: "fl list \<Rightarrow> fl list" where
  "diff xs = map2 fsub xs (shift1 xs)"

text \<open>\<open>Series.fillna(0)\<close>.\<close>

definition fillna0 :: "fl list \<Rightarrow> fl list" where
  "fillna0 xs = map (\<lambda>x. if isnan x then Fin 0 else x) xs"

text \<open>\<open>Series.rolling(window=w).mean()\<close> on a column of finite values: NaN on the first
  \<open>w - 1\<close> rows, then the arithmetic mean of the trailing \<open>w\<close> values, the current row
  included.\<close>

definition rolling_mean :: "nat \<Rightarrow> real list \<Rightarrow> fl list" where
  "rolling_mean w xs =
     map (\<lambda>i. if i + 1 < w then NaN
              else Fin (sum_list (take w (drop (i + 1 - w) xs)) / real w))
         [0..<length xs]"

text \<open>\<open>np.cumprod\<close> and \<open>np.maximum.accumulate\<close>: the running fold of a binary
  operation.\<close>

fun run :: "(fl \<Rightarrow> fl \<Rightarrow> fl) \<Rightarrow> fl \<Rightarrow> fl list \<Rightarrow> fl list" where
  "run f a [] = []"
| "run f a (x # xs) = f a x # run f (f a x) xs"

fun accumulate :: "(fl \<Rightarrow> fl \<Rightarrow> fl) \<Rightarrow> fl list \<Rightarrow> fl list" where
  "accumulate f [] = []"
| "accumulate f (x # xs) = x # run f x xs"

text \<open>pandas' cumulative functions skip NaN: each NaN is replaced by the operation's
  neutral value before accumulating, and the result is NaN again on those rows.\<close>

definition na_accum :: "(fl \<Rightarrow> fl \<Rightarrow> fl) \<Rightarrow> fl \<Rightarrow> fl list \<Rightarrow> fl list" where
  "na_accum f neutral xs =
     map2 (\<lambda>x r. if isnan x then NaN else r) xs
       (accumulate f (map (\<lambda>x. if isnan x then neutral else x) xs))"

definition cumprod :: "fl list \<Rightarrow> fl list" where
  "cumprod xs = na_accum fmul (Fin 1) xs"

definition cummax :: "fl list \<Rightarrow> fl list" where
  "cummax xs = na_accum fmax NInf xs"

text \<open>The reductions \<open>mean\<close>, \<open>std\<close> (sample standard deviation, one degree of freedom
  removed) and \<open>min\<close> skip NaN; with no value left (or, for \<open>std\<close>, fewer than two) the
  result is NaN.\<close>

definition dropna :: "fl list \<Rightarrow> fl list" where
  "dropna xs = filter (\<lambda>x. \<not> isnan x) xs"

definition fsum :: "fl list \<Rightarrow> fl" where
  "fsum xs = foldl fadd (Fin 0) xs"

definition mean :: "fl list \<Rightarrow> fl" where
  "mean xs = (let vs = dropna xs in
     if vs = [] then NaN else fdiv (fsum vs) (Fin (real (length vs))))"

definition std :: "fl list \<Rightarrow> fl" where
  "std xs = (let vs = dropna xs; m = mean vs in
     if length vs < 2 then NaN
     else fsqrt (fdiv (fsum (map (\<lambda>v. fmul (fsub v m) (fsub v m)) vs))
                      (Fin (real (length vs - 1)))))"

definition series_min :: "fl list \<Rightarrow> fl" where
  "series_min xs = (case dropna xs of [] \<Rightarrow> NaN | v # vs \<Rightarrow> foldl fmin v vs)"

text \<open>\<open>Series.ewm(com=c, min_periods=m).mean()\<close> with the default \<open>adjust=True\<close>: with
  \<open>\<alpha> = 1 / (1 + c)\<close>, row \<open>t\<close> is the average of the observations up to \<open>t\<close>, the one
  \<open>i\<close> rows back weighted by \<open>(1 - \<alpha>) ^ i\<close>; NaN observations carry no weight, and the
  row is NaN until \<open>m\<close> observations have been seen.\<close>

definition ewm_weights :: "real \<Rightarrow> fl list \<Rightarrow> (real \<times> fl) list" where
  "ewm_weights c obs =
     filter (\<lambda>(w, x). \<not> isnan x)
       (zip (map (\<lambda>i. (1 - 1 / (1 + c)) ^ i) [0..<length obs]) (rev obs))"

definition ewm_row :: "real \<Rightarrow> nat \<Rightarrow> fl list \<Rightarrow> fl" where
  "ewm_row c m obs =
     (let ws = ewm_weights c obs in
      if length ws < m then NaN
      else fdiv (fsum (map (\<lambda>(w, x). fmul (Fin w) x) ws)) (Fin (sum_list (map fst ws))))"

definition ewm_mean :: "real \<Rightarrow> nat \<Rightarrow> fl list \<Rightarrow> fl list" where
  "ewm_mean c m xs = map (\<lambda>t. ewm_row c m (take (t + 1) xs)) [0..<length xs]"

section \<open>BacktesterV1: simple SMA crossover\<close>

text \<open>
  The input \<open>cs\<close> is the \<open>Close\<close> column of the downloaded frame after the first
  \<open>dropna\<close>, oldest bar first. A row of the frame after the two SMA columns are added is
  (Close, SMA_10, SMA_50); the second \<open>dropna\<close> removes every row holding a NaN.
\<close>

type_synonym row = "fl \<times> fl \<times> fl"

definition rows_v1 :: "real list \<Rightarrow> row list" where
  "rows_v1 cs = zip (map Fin cs) (zip (rolling_mean 10 cs) (rolling_mean 50 cs))"

definition frame_v1 :: "real list \<Rightarrow> row list" where
  "frame_v1 cs =
     filter (\<lambda>(c, f, s). \<not> isnan c \<and> \<not> isnan f \<and> \<not> isnan s) (rows_v1 cs)"

definition Close_v1 :: "real list \<Rightarrow> fl list" where
  "Close_v1 cs = map fst (frame_v1 cs)"

definition SMA_10_v1 :: "real list \<Rightarrow> fl list" where
  "SMA_10_v1 cs = map (\<lambda>(c, f, s). f) (frame_v1 cs)"

definition SMA_50_v1 :: "real list \<Rightarrow> fl list" where
  "SMA_50_v1 cs = map (\<lambda>(c, f, s). s) (frame_v1 cs)"

definition Position :: "real list \<Rightarrow> fl list" where
  "Position cs =
     map2 (\<lambda>f s. if fgt f s then Fin 1 else Fin 0) (SMA_10_v1 cs) (SMA_50_v1 cs)"

definition daily_returns :: "real list \<Rightarrow> fl list" where
  "daily_returns cs = pct_change (Close_v1 cs)"

definition strategy_returns :: "real list \<Rightarrow> fl list" where
  "strategy_returns cs = map2 fmul (daily_returns cs) (shift1 (Position cs))"

definition cumulative_returns :: "real list \<Rightarrow> fl list" where
  "cumulative_returns cs = cumprod (map (\<lambda>r. fadd r (Fin 1)) (strategy_returns cs))"

definition buy_hold_returns :: "real list \<Rightarrow> fl list" where
  "buy_hold_returns cs = cumprod (map (\<lambda>r. fadd r (Fin 1)) (daily_returns cs))"

definition annual_sharpe :: "real list \<Rightarrow> fl" where
  "annual_sharpe cs =
     (let mean_dr = mean (strategy_returns cs);
          std_dr = std (strategy_returns cs);
          daily_sharpe = fdiv mean_dr std_dr
      in fmul daily_sharpe (Fin (sqrt 252)))"

definition Running_max :: "real list \<Rightarrow> fl list" where
  "Running_max cs = cummax (cumulative_returns cs)"

definition Drawdown_v1 :: "real list \<Rightarrow> fl list" where
  "Drawdown_v1 cs =
     map2 (\<lambda>c m. fsub (fdiv c m) (Fin 1)) (cumulative_returns cs) (Running_max cs)"

definition max_dd_v1 :: "real list \<Rightarrow> fl" where
  "max_dd_v1 cs = series_min (Drawdown_v1 cs)"

section \<open>BacktesterV2: SMA crossover filtered by RSI\<close>

text \<open>The same input; no row is removed after the indicator columns are added.\<close>

definition Close_v2 :: "real list \<Rightarrow> fl list" where
  "Close_v2 cs = map Fin cs"

definition SMA_10_v2 :: "real list \<Rightarrow> fl list" where
  "SMA_10_v2 cs = rolling_mean 10 cs"

definition SMA_50_v2 :: "real list \<Rightarrow> fl list" where
  "SMA_50_v2 cs = rolling_mean 50 cs"

definition Change :: "real list \<Rightarrow> fl list" where
  "Change cs = diff (Close_v2 cs)"

definition Gain :: "real list \<Rightarrow> fl list" where
  "Gain cs = map (\<lambda>c. if fgt c (Fin 0) then c else Fin 0) (Change cs)"

definition Loss :: "real list \<Rightarrow> fl list" where
  "Loss cs = map (\<lambda>c. if flt c (Fin 0) then fabs c else Fin 0) (Change cs)"

definition Avg_Gain :: "real list \<Rightarrow> fl list" where
  "Avg_Gain cs = ewm_mean 13 14 (Gain cs)"

definition Avg_Loss :: "real list \<Rightarrow> fl list" where
  "Avg_Loss cs = ewm_mean 13 14 (Loss cs)"

definition RS :: "real list \<Rightarrow> fl list" where
  "RS cs = map2 fdiv (Avg_Gain cs) (Avg_Loss cs)"

definition RSI :: "real list \<Rightarrow> fl list" where
  "RSI cs = map (\<lambda>rs. fsub (Fin 100) (fdiv (Fin 100) (fadd (Fin 1) rs))) (RS cs)"

definition Signal :: "real list \<Rightarrow> fl list" where
  "Signal cs =
     map2 (\<lambda>(f, s) r. if fgt f s \<and> flt r (Fin 70) then Fin 1 else Fin 0)
       (zip (SMA_10_v2 cs) (SMA_50_v2 cs)) (RSI cs)"

definition Market_returns :: "real list \<Rightarrow> fl list" where
  "Market_returns cs = pct_change (Close_v2 cs)"

definition Strategy_returns :: "real list \<Rightarrow> fl list" where
  "Strategy_returns cs = map2 fmul (Market_returns cs) (shift1 (Signal cs))"

definition Cumulative_market :: "real list \<Rightarrow> fl list" where
  "Cumulative_market cs = cumprod (map (fadd (Fin 1)) (fillna0 (Market_returns cs)))"

definition Cumulative_strategy :: "real list \<Rightarrow> fl list" where
  "Cumulative_strategy cs = cumprod (map (fadd (Fin 1)) (fillna0 (Strategy_returns cs)))"

definition sharpe :: "real list \<Rightarrow> fl" where
  "sharpe cs =
     (let sd = std (Strategy_returns cs) in
      if fgt sd (Fin 0) then fmul (fdiv (mean (Strategy_returns cs)) sd) (Fin (sqrt 252))
      else Fin 0)"

definition Peak :: "real list \<Rightarrow> fl list" where
  "Peak cs = cummax (Cumulative_strategy cs)"

definition Drawdown_v2 :: "real list \<Rightarrow> fl list" where
  "Drawdown_v2 cs =
     map2 (\<lambda>c m. fsub (fdiv c m) (Fin 1)) (Cumulative_strategy cs) (Peak cs)"

definition max_dd_v2 :: "real list \<Rightarrow> fl" where
  "max_dd_v2 cs = series_min (Drawdown_v2 cs)"

section \<open>The news aggregator\<close>

text \<open>
  The values the news source hands back: Python dictionaries, lists, strings, numbers and
  \<open>None\<close>. A dictionary is an association list with distinct keys.
\<close>

datatype json =
    JNull | JBool bool | JInt int | JFloat real | JStr string
  | JList "json list" | JDict "(string \<times> json) list"

datatype error = AttributeError | TypeError | UpstreamError string

text \<open>Truth value of a Python object, as \<open>or\<close> and \<open>not\<close> test it.\<close>

fun truthy :: "json \<Rightarrow> bool" where
  "truthy JNull = False"
| "truthy (JBool b) = b"
| "truthy (JInt i) = (i \<noteq> 0)"
| "truthy (JFloat r) = (r \<noteq> 0)"
| "truthy (JStr s) = (s \<noteq> [])"
| "truthy (JList xs) = (xs \<noteq> [])"
| "truthy (JDict kvs) = (kvs \<noteq> [])"

text \<open>\<open>obj.get(key, default)\<close>: only a dictionary has the method.\<close>

fun get :: "json \<Rightarrow> string \<Rightarrow> json \<Rightarrow> error + json" where
  "get (JDict kvs) k d = Inr (case map_of kvs k of Some v \<Rightarrow> v | None \<Rightarrow> d)"
| "get obj k d = Inl AttributeError"

text \<open>What a \<open>for\<close> loop iterates over: the elements of a list, the keys of a dictionary,
  the characters of a string; other objects are not iterable.\<close>

fun py_iter :: "json \<Rightarrow> error + json list" where
  "py_iter (JList xs) = Inr xs"
| "py_iter (JDict kvs) = Inr (map (\<lambda>(k, v). JStr k) kvs)"
| "py_iter (JStr s) = Inr (map (\<lambda>c. JStr [c]) s)"
| "py_iter obj = Inl TypeError"

record datetime =
  year :: nat
  month :: nat
  day :: nat
  hour :: nat
  minute :: nat
  second :: nat

text \<open>
  A \<open>datetime\<close> object, as far as the aggregator reads it: the date and the time of day
  it shows. \<open>dt.strftime("%Y-%m-%d %H:%M:%S")\<close> prints these fields and nothing of the
  offset the object may carry. It hands the format to the \<open>strftime\<close> of the C library:
  month, day, hour, minute and second are padded with a zero to two digits; the year is
  printed in decimal, which glibc does not pad (the year 999 prints as \<open>999\<close>).
\<close>

definition digit :: "nat \<Rightarrow> char" where
  "digit n = ''0123456789'' ! (n mod 10)"

definition pad2 :: "nat \<Rightarrow> string" where
  "pad2 n = [digit (n div 10), digit n]"

fun decimal :: "nat \<Rightarrow> string" where
  "decimal n = (if n < 10 then [digit n] else decimal (n div 10) @ [digit n])"

declare decimal.simps [simp del]

definition strftime :: "datetime \<Rightarrow> string" where
  "strftime dt =
     decimal (year dt) @ ''-'' @ pad2 (month dt) @ ''-'' @ pad2 (day dt) @ '' '' @
     pad2 (hour dt) @ '':'' @ pad2 (minute dt) @ '':'' @ pad2 (second dt)"

text \<open>\<open>s.replace("Z", "+00:00")\<close>.\<close>

definition replace_Z :: "string \<Rightarrow> string" where
  "replace_Z s = concat (map (\<lambda>c. if c = CHR ''Z'' then ''+00:00'' else [c]) s)"

text \<open>
  The library calls the aggregator depends on: the \<open>news\<close> property of a ticker, which
  returns a value or raises; \<open>datetime.fromtimestamp\<close> and \<open>datetime.fromisoformat\<close>,
  which return a date or raise (\<open>None\<close>); and \<open>str\<close> of a value that is not a string.
  \<open>fromtimestamp\<close> shows the seconds since 1970 on the local clock of the machine;
  \<open>fromisoformat\<close> shows the date and time written in the string, which has its own
  offset.
\<close>

record env =
  news :: "string \<Rightarrow> error + json"
  fromtimestamp :: "real \<Rightarrow> datetime option"
  fromisoformat :: "string \<Rightarrow> datetime option"
  str :: "json \<Rightarrow> string"

record news_item =
  company :: string
  ticker :: string
  headline :: json
  time :: string

text \<open>The three places a timestamp is looked for; \<open>or\<close> evaluates its right operand only
  when the left one is false.\<close>

definition raw_time :: "json \<Rightarrow> error + json" where
  "raw_time story =
     (case get story ''providerPublishTime'' JNull of
        Inl e \<Rightarrow> Inl e
      | Inr a \<Rightarrow>
          if truthy a then Inr a
          else (case get story ''pubDate'' JNull of
                  Inl e \<Rightarrow> Inl e
                | Inr b \<Rightarrow>
                    if truthy b then Inr b
                    else (case get story ''content'' (JDict []) of
                            Inl e \<Rightarrow> Inl e
                          | Inr c \<Rightarrow> get c ''pubDate'' JNull)))"

text \<open>The \<open>except\<close> branch of the timestamp parser: the raw value as a string, or
  \<open>Unknown Time\<close> when the raw value is false.\<close>

definition fallback :: "env \<Rightarrow> json \<Rightarrow> string" where
  "fallback E raw =
     (if truthy raw then (case raw of JStr s \<Rightarrow> s | _ \<Rightarrow> str E raw) else ''Unknown Time'')"

definition from_number :: "env \<Rightarrow> json \<Rightarrow> real \<Rightarrow> string" where
  "from_number E raw x =
     (case fromtimestamp E x of Some dt \<Rightarrow> strftime dt | None \<Rightarrow> fallback E raw)"

text \<open>A \<open>bool\<close> is an \<open>int\<close> for \<open>isinstance\<close>.\<close>

definition time_str :: "env \<Rightarrow> json \<Rightarrow> string" where
  "time_str E raw =
     (case raw of
        JInt i \<Rightarrow> from_number E raw (real_of_int i)
      | JFloat r \<Rightarrow> from_number E raw r
      | JBool b \<Rightarrow> from_number E raw (if b then 1 else 0)
      | JStr s \<Rightarrow>
          (case fromisoformat E (replace_Z s) of
             Some dt \<Rightarrow> strftime dt
           | None \<Rightarrow> fallback E raw)
      | _ \<Rightarrow> ''Unknown Time'')"

definition headline_of :: "json \<Rightarrow> error + json" where
  "headline_of story =
     (case get story ''title'' JNull of
        Inl e \<Rightarrow> Inl e
      | Inr a \<Rightarrow>
          if truthy a then Inr a
          else (case get story ''content'' (JDict []) of
                  Inl e \<Rightarrow> Inl e
                | Inr c \<Rightarrow> get c ''title'' (JStr ''No Title'')))"

definition clean_story :: "env \<Rightarrow> string \<Rightarrow> string \<Rightarrow> json \<Rightarrow> error + news_item" where
  "clean_story E name tk story =
     (case raw_time story of
        Inl e \<Rightarrow> Inl e
      | Inr raw \<Rightarrow>
          (case headline_of story of
             Inl e \<Rightarrow> Inl e
           | Inr h \<Rightarrow>
               Inr \<lparr>company = name, ticker = tk, headline = h, time = time_str E raw\<rparr>))"

text \<open>The loop over the stories: the first story that raises ends it.\<close>

fun clean_stories :: "env \<Rightarrow> string \<Rightarrow> string \<Rightarrow> json list \<Rightarrow> error + news_item list" where
  "clean_stories E name tk [] = Inr []"
| "clean_stories E name tk (story # rest) =
     (case clean_story E name tk story of
        Inl e \<Rightarrow> Inl e
      | Inr info \<Rightarrow>
          (case clean_stories E name tk rest of
             Inl e \<Rightarrow> Inl e
           | Inr infos \<Rightarrow> Inr (info # infos)))"

definition get_news :: "env \<Rightarrow> string \<Rightarrow> string \<Rightarrow> error + news_item list" where
  "get_news E name tk =
     (case news E tk of
        Inl e \<Rightarrow> Inl e
      | Inr newslist \<Rightarrow>
          if \<not> truthy newslist then Inr []
          else (case py_iter newslist of
                  Inl e \<Rightarrow> Inl e
                | Inr stories \<Rightarrow> clean_stories E name tk stories))"

text \<open>
  The main loop over the watchlist, a list of (name, ticker) in the order of the
  dictionary. The state is the master list and the lines printed so far: \<open>get_news\<close>
  prints that it fetches before it does anything else, and the handler of the loop prints
  the error of a ticker that raised.
\<close>

datatype line = Fetching string string | ErrorOn string error

fun main_loop ::
  "env \<Rightarrow> (string \<times> string) list \<Rightarrow> news_item list \<times> line list \<Rightarrow> news_item list \<times> line list"
where
  "main_loop E [] st = st"
| "main_loop E ((name, tk) # rest) (all_news, out) =
     (case get_news E name tk of
        Inr results \<Rightarrow> main_loop E rest (all_news @ results, out @ [Fetching name tk])
      | Inl e \<Rightarrow> main_loop E rest (all_news, out @ [Fetching name tk, ErrorOn tk e]))"

text \<open>What one pass of the loop adds to the master list, and what it prints.\<close>

definition results_of :: "env \<Rightarrow> string \<times> string \<Rightarrow> news_item list" where
  "results_of E p = (case get_news E (fst p) (snd p) of Inr results \<Rightarrow> results | Inl e \<Rightarrow> [])"

definition lines_of :: "env \<Rightarrow> string \<times> string \<Rightarrow> line list" where
  "lines_of E p =
     (case get_news E (fst p) (snd p) of
        Inr results \<Rightarrow> [Fetching (fst p) (snd p)]
      | Inl e \<Rightarrow> [Fetching (fst p) (snd p), ErrorOn (snd p) e])"

text \<open>\<open>list.sort(key=..., reverse=True)\<close> sorts in descending order of the key and keeps
  records with equal keys in their original order; strings compare lexicographically by
  character code.\<close>

definition sort_desc :: "news_item list \<Rightarrow> news_item list" where
  "sort_desc xs = rev (sort_key time (rev xs))"

definition all_market_news :: "env \<Rightarrow> (string \<times> string) list \<Rightarrow> news_item list" where
  "all_market_news E wl = sort_desc (fst (main_loop E wl ([], [])))"

definition printed :: "env \<Rightarrow> (string \<times> string) list \<Rightarrow> line list" where
  "printed E wl = snd (main_loop E wl ([], []))"

definition watchlist :: "(string \<times> string) list" where
  "watchlist =
     [(''Google'', ''GOOGL''), (''Tesla'', ''TSLA''), (''Palantir'', ''PLTR''),
      (''Nvidia'', ''NVDA''), (''Gold'', ''GC=F''), (''Silver'', ''SI=F'')]"

section \<open>Properties of the backtesters\<close>

subsection \<open>NaN propagates through the arithmetic\<close>

lemma fadd_NaN_right [simp]: "fadd a NaN = NaN"
  by (cases a) simp_all

lemma fmul_NaN_right [simp]: "fmul a NaN = NaN"
  by (cases a) simp_all

lemma fdiv_NaN_right [simp]: "fdiv a NaN = NaN"
  by (cases a) simp_all

lemma flt_NaN_right [simp]: "flt a NaN = False"
  by (cases a) simp_all

lemma fsub_Fin [simp]: "fsub (Fin x) (Fin y) = Fin (x - y)"
  by (simp add: fsub_def)

lemma fsub_NaN_left [simp]: "fsub NaN b = NaN"
  by (simp add: fsub_def)

lemma fsub_NaN_right [simp]: "fsub a NaN = NaN"
  by (simp add: fsub_def)

subsection \<open>Lengths and rows of the columns\<close>

lemma length_shift1 [simp]: "length (shift1 xs) = length xs"
  by (simp add: shift1_def)

lemma nth_shift1: "t < length xs \<Longrightarrow> shift1 xs ! t = (if t = 0 then NaN else xs ! (t - 1))"
  by (cases t) (simp_all add: shift1_def)

lemma length_pct_change [simp]: "length (pct_change xs) = length xs"
  by (simp add: pct_change_def)

lemma length_rolling_mean [simp]: "length (rolling_mean w xs) = length xs"
  by (simp add: rolling_mean_def)

lemma nth_rolling_mean:
  "i < length xs \<Longrightarrow> rolling_mean w xs ! i =
     (if i + 1 < w then NaN else Fin (sum_list (take w (drop (i + 1 - w) xs)) / real w))"
  by (simp add: rolling_mean_def)

subsection \<open>The frame of BacktesterV1 after its second dropna\<close>

lemma length_rows_v1 [simp]: "length (rows_v1 cs) = length cs"
  by (simp add: rows_v1_def)

lemma nth_rows_v1:
  "i < length cs \<Longrightarrow>
   rows_v1 cs ! i = (Fin (cs ! i), rolling_mean 10 cs ! i, rolling_mean 50 cs ! i)"
  by (simp add: rows_v1_def)

lemma filter_drop_prefix:
  assumes "\<And>i. i < length xs \<Longrightarrow> P (xs ! i) = (n \<le> i)"
  shows "filter P xs = drop n xs"
proof -
  have "filter P (take n xs) = []"
    using assms by (auto simp: filter_empty_conv in_set_conv_nth)
  moreover have "filter P (drop n xs) = drop n xs"
    using assms by (auto simp: filter_id_conv in_set_conv_nth)
  ultimately show ?thesis
    by (metis append_Nil append_take_drop_id filter_append)
qed

lemma frame_v1_drop: "frame_v1 cs = drop 49 (rows_v1 cs)"
  unfolding frame_v1_def
  by (rule filter_drop_prefix) (auto simp: nth_rows_v1 nth_rolling_mean)

lemma length_frame_v1: "length (frame_v1 cs) = length cs - 49"
  by (simp add: frame_v1_drop)

lemma map_fst_rows_v1: "map fst (rows_v1 cs) = map Fin cs"
  by (simp add: rows_v1_def)

lemma map_sma10_rows_v1: "map (\<lambda>(c, f, s). f) (rows_v1 cs) = rolling_mean 10 cs"
  by (rule nth_equalityI) (simp_all add: nth_rows_v1)

lemma map_sma50_rows_v1: "map (\<lambda>(c, f, s). s) (rows_v1 cs) = rolling_mean 50 cs"
  by (rule nth_equalityI) (simp_all add: nth_rows_v1)

lemma Close_v1_eq: "Close_v1 cs = map Fin (drop 49 cs)"
  unfolding Close_v1_def frame_v1_drop drop_map[symmetric] map_fst_rows_v1 ..

lemma SMA_10_v1_eq: "SMA_10_v1 cs = drop 49 (rolling_mean 10 cs)"
  unfolding SMA_10_v1_def frame_v1_drop drop_map[symmetric] map_sma10_rows_v1 ..

lemma SMA_50_v1_eq: "SMA_50_v1 cs = drop 49 (rolling_mean 50 cs)"
  unfolding SMA_50_v1_def frame_v1_drop drop_map[symmetric] map_sma50_rows_v1 ..

lemma length_Position: "length (Position cs) = length cs - 49"
  by (simp add: Position_def SMA_10_v1_eq SMA_50_v1_eq)

lemma length_daily_returns: "length (daily_returns cs) = length cs - 49"
  by (simp add: daily_returns_def Close_v1_eq)

lemma length_strategy_returns: "length (strategy_returns cs) = length cs - 49"
  by (simp add: strategy_returns_def length_daily_returns length_Position)

lemma length_ewm_mean [simp]: "length (ewm_mean c m xs) = length xs"
  by (simp add: ewm_mean_def)

lemma length_Change: "length (Change cs) = length cs"
  by (simp add: Change_def diff_def Close_v2_def)

lemma length_RSI: "length (RSI cs) = length cs"
  by (simp add: RSI_def RS_def Avg_Gain_def Avg_Loss_def Gain_def Loss_def length_Change)

lemma length_Signal: "length (Signal cs) = length cs"
  by (simp add: Signal_def SMA_10_v2_def SMA_50_v2_def length_RSI)

lemma length_Market_returns: "length (Market_returns cs) = length cs"
  by (simp add: Market_returns_def Close_v2_def)

lemma length_Strategy_returns: "length (Strategy_returns cs) = length cs"
  by (simp add: Strategy_returns_def length_Market_returns length_Signal)

lemma nth_pct_change:
  "t < length xs \<Longrightarrow> pct_change xs ! t =
     (if t = 0 then NaN else fsub (fdiv (xs ! t) (xs ! (t - 1))) (Fin 1))"
  by (simp add: pct_change_def nth_shift1)

subsection \<open>The signal is a pointwise function of the indicators\<close>

text \<open>
  Claim C7. On every row the signal is 0 or 1 and is computed from the indicator values of
  that row alone: in BacktesterV1 \<open>Position\<close> is 1 exactly when \<open>SMA_10 > SMA_50\<close>, in
  BacktesterV2 \<open>Signal\<close> is 1 exactly when \<open>SMA_10 > SMA_50\<close> and \<open>RSI < 70\<close>, and 0
  otherwise (a comparison with NaN is false). The signal has one value per row of the frame.
\<close>

theorem signal_binary_pointwise:
  "length (Position cs) = length (frame_v1 cs) \<and> length (Signal cs) = length cs \<and>
   (t < length (Position cs) \<longrightarrow>
      Position cs ! t = (if fgt (SMA_10_v1 cs ! t) (SMA_50_v1 cs ! t) then Fin 1 else Fin 0)) \<and>
   (t < length (Signal cs) \<longrightarrow>
      Signal cs ! t =
        (if fgt (SMA_10_v2 cs ! t) (SMA_50_v2 cs ! t) \<and> flt (RSI cs ! t) (Fin 70)
         then Fin 1 else Fin 0))"
proof -
  have v1: "t < length (Position cs) \<longrightarrow>
      Position cs ! t = (if fgt (SMA_10_v1 cs ! t) (SMA_50_v1 cs ! t) then Fin 1 else Fin 0)"
    by (simp add: Position_def)
  have v2: "t < length (Signal cs) \<longrightarrow>
      Signal cs ! t =
        (if fgt (SMA_10_v2 cs ! t) (SMA_50_v2 cs ! t) \<and> flt (RSI cs ! t) (Fin 70)
         then Fin 1 else Fin 0)"
    by (simp add: Signal_def)
  show ?thesis
    using v1 v2 by (simp add: length_Position length_frame_v1 length_Signal)
qed

theorem signal_binary_pointwise_witness:
  "Position (replicate 49 1 @ [2, 3]) ! 0 = Fin 1 \<and> Signal (replicate 49 1 @ [2, 3]) ! 0 = Fin 0"
  using signal_binary_pointwise [of "replicate 49 1 @ [2, 3]" 0]
  by (auto simp add: length_frame_v1 SMA_10_v1_eq SMA_50_v1_eq SMA_10_v2_def SMA_50_v2_def
      nth_rolling_mean fgt_def sum_list_replicate)

subsection \<open>Strategy returns lag the signal by one bar\<close>

text \<open>
  Claim C1. On every row \<open>t\<close> after the first, the market return is the raw price return
  \<open>close[t] / close[t-1] - 1\<close> of that row, with no lag, and the strategy return is that
  return multiplied by the signal of row \<open>t - 1\<close>. This holds in BacktesterV1
  (\<open>daily_returns\<close>, \<open>strategy_returns\<close>) and in BacktesterV2 (\<open>Market_returns\<close>,
  \<open>Strategy_returns\<close>).
\<close>

theorem strategy_return_lagged:
  "(0 < t \<and> t < length (strategy_returns cs) \<longrightarrow>
      daily_returns cs ! t = fsub (fdiv (Close_v1 cs ! t) (Close_v1 cs ! (t - 1))) (Fin 1) \<and>
      strategy_returns cs ! t = fmul (daily_returns cs ! t) (Position cs ! (t - 1))) \<and>
   (0 < t \<and> t < length (Strategy_returns cs) \<longrightarrow>
      Market_returns cs ! t = fsub (fdiv (Close_v2 cs ! t) (Close_v2 cs ! (t - 1))) (Fin 1) \<and>
      Strategy_returns cs ! t = fmul (Market_returns cs ! t) (Signal cs ! (t - 1)))"
proof -
  have v1: "daily_returns cs ! t = fsub (fdiv (Close_v1 cs ! t) (Close_v1 cs ! (t - 1))) (Fin 1) \<and>
      strategy_returns cs ! t = fmul (daily_returns cs ! t) (Position cs ! (t - 1))"
    if "0 < t" "t < length (strategy_returns cs)"
  proof -
    from that have lt: "t < length cs - 49"
      by (simp add: length_strategy_returns)
    then have "t < length (Close_v1 cs)"
      by (simp add: Close_v1_eq)
    with that(1) have "daily_returns cs ! t =
        fsub (fdiv (Close_v1 cs ! t) (Close_v1 cs ! (t - 1))) (Fin 1)"
      by (simp add: daily_returns_def nth_pct_change)
    moreover from lt that(1) have "strategy_returns cs ! t =
        fmul (daily_returns cs ! t) (Position cs ! (t - 1))"
      by (simp add: strategy_returns_def length_daily_returns length_Position nth_shift1)
    ultimately show ?thesis by simp
  qed
  have v2: "Market_returns cs ! t = fsub (fdiv (Close_v2 cs ! t) (Close_v2 cs ! (t - 1))) (Fin 1) \<and>
      Strategy_returns cs ! t = fmul (Market_returns cs ! t) (Signal cs ! (t - 1))"
    if "0 < t" "t < length (Strategy_returns cs)"
  proof -
    from that have lt: "t < length cs"
      by (simp add: length_Strategy_returns)
    then have "t < length (Close_v2 cs)"
      by (simp add: Close_v2_def)
    with that(1) have "Market_returns cs ! t =
        fsub (fdiv (Close_v2 cs ! t) (Close_v2 cs ! (t - 1))) (Fin 1)"
      by (simp add: Market_returns_def nth_pct_change)
    moreover from lt that(1) have "Strategy_returns cs ! t =
        fmul (Market_returns cs ! t) (Signal cs ! (t - 1))"
      by (simp add: Strategy_returns_def length_Market_returns length_Signal nth_shift1)
    ultimately show ?thesis by simp
  qed
  show ?thesis using v1 v2 by blast
qed

theorem strategy_return_lagged_witness:
  "strategy_returns (replicate 49 1 @ [2, 3]) ! 1 = Fin (1 / 2) \<and>
   Strategy_returns (replicate 49 1 @ [2, 3]) ! 1 = Fin 0"
proof -
  have pos: "Position (replicate 49 1 @ [2, 3]) ! 0 = Fin 1"
    by (simp add: Position_def SMA_10_v1_eq SMA_50_v1_eq nth_rolling_mean fgt_def
        sum_list_replicate)
  have sig: "Signal (replicate 49 1 @ [2, 3]) ! 0 = Fin 0"
    by (simp add: Signal_def SMA_10_v2_def SMA_50_v2_def length_RSI nth_rolling_mean fgt_def)
  show ?thesis
    using strategy_return_lagged [of 1 "replicate 49 1 @ [2, 3]"] pos sig
    by (simp add: length_strategy_returns length_Strategy_returns Close_v1_eq Close_v2_def
        nth_append)
qed

subsection \<open>Running products and running maxima\<close>

lemma length_run [simp]: "length (run f a xs) = length xs"
  by (induction xs arbitrary: a) simp_all

lemma length_accumulate [simp]: "length (accumulate f xs) = length xs"
  by (cases xs) simp_all

lemma length_na_accum [simp]: "length (na_accum f e xs) = length xs"
  by (simp add: na_accum_def)

lemma length_cumprod [simp]: "length (cumprod xs) = length xs"
  by (simp add: cumprod_def)

lemma length_cummax [simp]: "length (cummax xs) = length xs"
  by (simp add: cummax_def)

lemma fmul_one_left [simp]: "fmul (Fin 1) x = x"
  by (cases x) simp_all

lemma fmax_NInf_left: "\<not> isnan x \<Longrightarrow> fmax NInf x = x"
  by (cases x) (simp_all add: fmax_def)

lemma accumulate_neutral_Cons:
  assumes "\<And>y. y \<in> set xs \<Longrightarrow> f e y = y"
  shows "accumulate f (e # xs) = e # accumulate f xs"
  using assms by (cases xs) simp_all

lemma na_accum_NaN_Cons:
  assumes "\<And>y. \<not> isnan y \<Longrightarrow> f e y = y" and "\<not> isnan e"
  shows "na_accum f e (NaN # xs) = NaN # na_accum f e xs"
proof -
  have "accumulate f (e # map (\<lambda>x. if isnan x then e else x) xs) =
        e # accumulate f (map (\<lambda>x. if isnan x then e else x) xs)"
    by (rule accumulate_neutral_Cons) (auto simp: assms)
  then show ?thesis
    by (simp add: na_accum_def)
qed

lemma cumprod_NaN_Cons: "cumprod (NaN # xs) = NaN # cumprod xs"
  unfolding cumprod_def by (rule na_accum_NaN_Cons) simp_all

lemma cummax_NaN_Cons: "cummax (NaN # xs) = NaN # cummax xs"
  unfolding cummax_def by (rule na_accum_NaN_Cons) (simp_all add: fmax_NInf_left)

lemma na_accum_no_NaN:
  assumes "\<And>x. x \<in> set xs \<Longrightarrow> \<not> isnan x"
  shows "na_accum f e xs = accumulate f xs"
proof -
  have m: "map (\<lambda>x. if isnan x then e else x) xs = xs"
    using assms by (simp add: map_idI)
  have "map2 (\<lambda>x r. if isnan x then NaN else r) xs ys = ys" if "length ys = length xs" for ys
    using that assms by (intro nth_equalityI) simp_all
  then show ?thesis
    by (simp add: na_accum_def m)
qed

lemma nth_run:
  "t < length xs \<Longrightarrow>
   run f a xs ! t = f (if t = 0 then a else run f a xs ! (t - 1)) (xs ! t)"
proof (induction xs arbitrary: a t)
  case Nil
  then show ?case by simp
next
  case (Cons x xs)
  show ?case
  proof (cases t)
    case 0
    then show ?thesis by simp
  next
    case (Suc k)
    with Cons.prems have "k < length xs" by simp
    from Cons.IH [OF this, of "f a x"] Suc show ?thesis
      by (cases k) simp_all
  qed
qed

lemma nth_accumulate_0: "xs \<noteq> [] \<Longrightarrow> accumulate f xs ! 0 = xs ! 0"
  by (cases xs) simp_all

lemma nth_accumulate_step:
  "0 < t \<Longrightarrow> t < length xs \<Longrightarrow>
   accumulate f xs ! t = f (accumulate f xs ! (t - 1)) (xs ! t)"
proof (cases xs)
  case Nil
  assume "t < length xs"
  with Nil show ?thesis by simp
next
  case (Cons x ys)
  assume "0 < t" "t < length xs"
  then obtain k where k: "t = Suc k" "k < length ys"
    using Cons by (cases t) simp_all
  then show ?thesis
    using Cons nth_run [of k ys f x] by (cases k) simp_all
qed

lemma run_fmul_Fin:
  "run fmul (Fin a) (map Fin us) = map Fin (map (\<lambda>t. a * prod_list (take (Suc t) us)) [0..<length us])"
proof (induction us arbitrary: a)
  case Nil
  then show ?case by simp
next
  case (Cons u us)
  have "map (\<lambda>t. a * prod_list (take (Suc t) (u # us))) [0..<length (u # us)] =
        a * u # map (\<lambda>t. (a * u) * prod_list (take (Suc t) us)) [0..<length us]"
    by (simp add: upt_conv_Cons map_Suc_upt [symmetric] mult.assoc del: upt_Suc)
  with Cons.IH [of "a * u"] show ?case by simp
qed

lemma accumulate_fmul_Fin:
  "accumulate fmul (map Fin us) = map Fin (map (\<lambda>t. prod_list (take (Suc t) us)) [0..<length us])"
proof (cases us)
  case Nil
  then show ?thesis by simp
next
  case (Cons u vs)
  have "map (\<lambda>t. prod_list (take (Suc t) (u # vs))) [0..<length (u # vs)] =
        u # map (\<lambda>t. u * prod_list (take (Suc t) vs)) [0..<length vs]"
    by (simp add: upt_conv_Cons map_Suc_upt [symmetric] del: upt_Suc)
  with Cons show ?thesis
    by (simp add: run_fmul_Fin)
qed

lemma fmax_Fin [simp]: "fmax (Fin a) (Fin b) = Fin (max a b)"
  by (simp add: fmax_def max_def)

lemma fmin_Fin [simp]: "fmin (Fin a) (Fin b) = Fin (min a b)"
  by (simp add: fmin_def min_def)

lemma Max_insert_max:
  "finite S \<Longrightarrow> Max (insert (max a v) S) = max a (Max (insert v S))"
  by (cases "S = {}") (simp_all add: max.assoc)

lemma run_fmax_Fin:
  "run fmax (Fin a) (map Fin vs) =
   map Fin (map (\<lambda>t. Max (insert a (set (take (Suc t) vs)))) [0..<length vs])"
proof (induction vs arbitrary: a)
  case Nil
  then show ?case by simp
next
  case (Cons v vs)
  have "map (\<lambda>t. Max (insert a (set (take (Suc t) (v # vs))))) [0..<length (v # vs)] =
        max a v # map (\<lambda>t. Max (insert (max a v) (set (take (Suc t) vs)))) [0..<length vs]"
    by (simp add: upt_conv_Cons map_Suc_upt [symmetric] Max_insert_max del: upt_Suc)
  with Cons.IH [of "max a v"] show ?case by simp
qed

lemma prod_list_pos: "(\<And>u. u \<in> set us \<Longrightarrow> 0 < u) \<Longrightarrow> 0 < prod_list (us :: real list)"
  by (induction us) simp_all

lemma cumprod_Fin:
  "cumprod (map Fin us) = map Fin (map (\<lambda>t. prod_list (take (Suc t) us)) [0..<length us])"
  unfolding cumprod_def by (subst na_accum_no_NaN) (auto simp: accumulate_fmul_Fin)

lemma accumulate_fmax_Fin:
  "accumulate fmax (map Fin vs) = map Fin (map (\<lambda>t. Max (set (take (Suc t) vs))) [0..<length vs])"
proof (cases vs)
  case Nil
  then show ?thesis by simp
next
  case (Cons v ws)
  have "map (\<lambda>t. Max (set (take (Suc t) (v # ws)))) [0..<length (v # ws)] =
        v # map (\<lambda>t. Max (insert v (set (take (Suc t) ws)))) [0..<length ws]"
    by (simp add: upt_conv_Cons map_Suc_upt [symmetric] del: upt_Suc)
  with Cons show ?thesis
    by (simp add: run_fmax_Fin)
qed

lemma cummax_Fin:
  "cummax (map Fin vs) = map Fin (map (\<lambda>t. Max (set (take (Suc t) vs))) [0..<length vs])"
  unfolding cummax_def by (subst na_accum_no_NaN) (auto simp: accumulate_fmax_Fin)

lemma foldl_fmin_Fin: "foldl fmin (Fin a) (map Fin vs) = Fin (Min (insert a (set vs)))"
proof (induction vs arbitrary: a)
  case Nil
  then show ?case by simp
next
  case (Cons v vs)
  have "Min (insert (min a v) (set vs)) = Min (insert a (insert v (set vs)))"
    by (cases "set vs = {}") (simp_all add: min.assoc)
  with Cons.IH [of "min a v"] show ?case by simp
qed

lemma dropna_Fin [simp]: "dropna (map Fin vs) = map Fin vs"
  by (induction vs) (simp_all add: dropna_def)

lemma dropna_NaN_Cons [simp]: "dropna (NaN # xs) = dropna xs"
  by (simp add: dropna_def)

lemma series_min_Fin: "vs \<noteq> [] \<Longrightarrow> series_min (map Fin vs) = Fin (Min (set vs))"
  unfolding series_min_def dropna_Fin by (cases vs) (simp_all add: foldl_fmin_Fin)

lemma series_min_NaN_Cons: "series_min (NaN # xs) = series_min xs"
  by (simp add: series_min_def)

text \<open>Drawdown of a column of positive finite values.\<close>

lemma drawdown_Fin:
  assumes pos: "\<And>v. v \<in> set vs \<Longrightarrow> 0 < v" and t: "t < length vs"
  shows "map2 (\<lambda>c m. fsub (fdiv c m) (Fin 1)) (map Fin vs) (cummax (map Fin vs)) ! t =
         Fin (vs ! t / Max (set (take (Suc t) vs)) - 1)"
    and "vs ! t / Max (set (take (Suc t) vs)) - 1 \<le> 0"
proof -
  let ?m = "Max (set (take (Suc t) vs))"
  have mem: "vs ! t \<in> set (take (Suc t) vs)"
    using t by (auto simp: in_set_conv_nth intro!: exI [of _ t])
  then have le: "vs ! t \<le> ?m"
    by simp
  have "0 < vs ! t"
    using pos t by simp
  with le have mpos: "0 < ?m"
    by linarith
  then show "map2 (\<lambda>c m. fsub (fdiv c m) (Fin 1)) (map Fin vs) (cummax (map Fin vs)) ! t =
         Fin (vs ! t / ?m - 1)"
    using t by (simp add: cummax_Fin)
  from le mpos show "vs ! t / ?m - 1 \<le> 0"
    by simp
qed

subsection \<open>Returns of a series of positive prices\<close>

lemma all_Fin_map:
  assumes "\<And>x. x \<in> set xs \<Longrightarrow> \<exists>y. P y \<and> x = Fin y"
  shows "\<exists>ys. xs = map Fin ys \<and> (\<forall>y\<in>set ys. P y)"
  using assms
proof (induction xs)
  case Nil
  then show ?case by simp
next
  case (Cons x xs)
  then obtain ys where ys: "xs = map Fin ys" "\<forall>y\<in>set ys. P y"
    by auto
  from Cons.prems obtain y where "P y" "x = Fin y"
    by auto
  with ys have "x # xs = map Fin (y # ys) \<and> (\<forall>z\<in>set (y # ys). P z)"
    by simp
  then show ?case by (rule exI)
qed

lemma NaN_then_Fin:
  assumes "xs \<noteq> []" and "xs ! 0 = NaN"
    and "\<And>t. 0 < t \<Longrightarrow> t < length xs \<Longrightarrow> \<exists>s. P s \<and> xs ! t = Fin s"
  shows "\<exists>ss. xs = NaN # map Fin ss \<and> (\<forall>s\<in>set ss. P s)"
proof -
  from assms(1,2) obtain ys where xs: "xs = NaN # ys"
    by (cases xs) auto
  have "\<exists>y. P y \<and> x = Fin y" if "x \<in> set ys" for x
  proof -
    from that obtain k where "k < length ys" "ys ! k = x"
      by (auto simp: in_set_conv_nth)
    with assms(3) [of "Suc k"] xs show ?thesis by auto
  qed
  from all_Fin_map [of ys P, OF this] xs show ?thesis by auto
qed

lemma Signal_cases: "t < length cs \<Longrightarrow> Signal cs ! t = Fin 0 \<or> Signal cs ! t = Fin 1"
  by (simp add: Signal_def SMA_10_v2_def SMA_50_v2_def length_RSI)

lemma Position_cases: "t < length cs - 49 \<Longrightarrow> Position cs ! t = Fin 0 \<or> Position cs ! t = Fin 1"
  by (simp add: Position_def SMA_10_v1_eq SMA_50_v1_eq)

lemma pct_change_Fin_0: "cs \<noteq> [] \<Longrightarrow> pct_change (map Fin cs) ! 0 = NaN"
  by (simp add: nth_pct_change)

lemma pct_change_Fin_pos:
  assumes "\<forall>c\<in>set cs. 0 < c" "0 < t" "t < length cs"
  shows "pct_change (map Fin cs) ! t = Fin (cs ! t / cs ! (t - 1) - 1)"
    and "0 < 1 + (cs ! t / cs ! (t - 1) - 1)"
proof -
  have a: "0 < cs ! t" and b: "0 < cs ! (t - Suc 0)"
    using assms by simp_all
  from b assms(2,3) show "pct_change (map Fin cs) ! t = Fin (cs ! t / cs ! (t - 1) - 1)"
    by (simp add: nth_pct_change)
  from a b show "0 < 1 + (cs ! t / cs ! (t - 1) - 1)"
    by simp
qed

lemma lagged_product_shape:
  assumes pos: "\<forall>c\<in>set cs. 0 < c" and ne: "cs \<noteq> []"
    and len: "length sig = length cs"
    and bin: "\<And>t. t < length cs \<Longrightarrow> sig ! t = Fin 0 \<or> sig ! t = Fin 1"
  shows "\<exists>ss. map2 fmul (pct_change (map Fin cs)) (shift1 sig) = NaN # map Fin ss \<and>
              (\<forall>s\<in>set ss. 0 < 1 + s)"
proof (rule NaN_then_Fin [where P = "\<lambda>s. 0 < 1 + s"])
  let ?xs = "map2 fmul (pct_change (map Fin cs)) (shift1 sig)"
  have "length ?xs = length cs"
    by (simp add: len)
  with ne show "?xs \<noteq> []"
    by (metis length_0_conv)
  show "?xs ! 0 = NaN"
    using ne len by (simp add: nth_pct_change)
  show "\<exists>s. 0 < 1 + s \<and> ?xs ! t = Fin s" if "0 < t" "t < length ?xs" for t
  proof -
    from that len have t: "t < length cs" by simp
    note r = pct_change_Fin_pos [OF pos that(1) t]
    from bin [of "t - 1"] t consider "sig ! (t - 1) = Fin 0" | "sig ! (t - 1) = Fin 1"
      by fastforce
    then show ?thesis
    proof cases
      case 1
      with t that(1) len r(1) show ?thesis by (simp add: nth_shift1)
    next
      case 2
      with t that(1) len r show ?thesis by (simp add: nth_shift1)
    qed
  qed
qed

lemma Strategy_returns_shape:
  assumes "\<forall>c\<in>set cs. 0 < c" "cs \<noteq> []"
  shows "\<exists>ss. Strategy_returns cs = NaN # map Fin ss \<and> (\<forall>s\<in>set ss. 0 < 1 + s)"
  unfolding Strategy_returns_def Market_returns_def Close_v2_def
  using assms by (intro lagged_product_shape) (simp_all add: length_Signal Signal_cases)

lemma strategy_returns_shape:
  assumes "\<forall>c\<in>set cs. 0 < c" "49 < length cs"
  shows "\<exists>ss. strategy_returns cs = NaN # map Fin ss \<and> (\<forall>s\<in>set ss. 0 < 1 + s)"
  unfolding strategy_returns_def daily_returns_def Close_v1_eq
  using assms
  by (intro lagged_product_shape) (auto simp add: length_Position Position_cases dest: in_set_dropD)

subsection \<open>Compounding\<close>

lemma nth_na_accum:
  "t < length xs \<Longrightarrow>
   na_accum f e xs ! t =
     (if isnan (xs ! t) then NaN
      else accumulate f (map (\<lambda>x. if isnan x then e else x) xs) ! t)"
  by (simp add: na_accum_def)

lemma nth_na_accum_0: "xs \<noteq> [] \<Longrightarrow> na_accum f e xs ! 0 = xs ! 0"
  by (cases xs; cases "hd xs") (simp_all add: na_accum_def)

lemma na_accum_step:
  assumes "0 < t" "t < length xs" "\<not> isnan (xs ! (t - 1))" "\<And>a. f a NaN = NaN"
  shows "na_accum f e xs ! t = f (na_accum f e xs ! (t - 1)) (xs ! t)"
proof -
  let ?ys = "map (\<lambda>x. if isnan x then e else x) xs"
  have prev: "na_accum f e xs ! (t - 1) = accumulate f ?ys ! (t - 1)"
    using assms(1-3) by (simp add: nth_na_accum)
  show ?thesis
  proof (cases "isnan (xs ! t)")
    case True
    then have "xs ! t = NaN" by (cases "xs ! t") simp_all
    with assms(2,4) show ?thesis by (simp add: nth_na_accum)
  next
    case False
    with assms(1,2) prev show ?thesis
      by (simp add: nth_na_accum nth_accumulate_step)
  qed
qed

lemma isnan_fadd_Fin [simp]: "isnan (fadd (Fin a) x) = isnan x"
  by (cases x) simp_all

lemma isnan_fadd_Fin_right [simp]: "isnan (fadd x (Fin a)) = isnan x"
  by (cases x) simp_all

lemma not_isnan_fillna0: "t < length xs \<Longrightarrow> \<not> isnan (fillna0 xs ! t)"
  by (simp add: fillna0_def)

lemma length_fillna0 [simp]: "length (fillna0 xs) = length xs"
  by (simp add: fillna0_def)

text \<open>Fill-then-compound, as BacktesterV2 does it.\<close>

lemma filled_cumprod_0:
  assumes "xs \<noteq> []" "xs ! 0 = NaN"
  shows "cumprod (map (fadd (Fin 1)) (fillna0 xs)) ! 0 = Fin 1"
  using assms by (cases xs) (simp_all add: cumprod_def nth_na_accum_0 fillna0_def)

lemma filled_cumprod_step:
  assumes "0 < t" "t < length xs"
  shows "cumprod (map (fadd (Fin 1)) (fillna0 xs)) ! t =
         fmul (cumprod (map (fadd (Fin 1)) (fillna0 xs)) ! (t - 1))
              (fadd (Fin 1) (fillna0 xs ! t))"
proof -
  have "cumprod (map (fadd (Fin 1)) (fillna0 xs)) ! t =
        fmul (cumprod (map (fadd (Fin 1)) (fillna0 xs)) ! (t - 1))
             (map (fadd (Fin 1)) (fillna0 xs) ! t)"
    unfolding cumprod_def using assms
    by (intro na_accum_step) (simp_all add: not_isnan_fillna0)
  with assms show ?thesis by simp
qed

text \<open>Compounding without filling, as BacktesterV1 does it.\<close>

lemma unfilled_cumprod_0:
  assumes "xs \<noteq> []" "xs ! 0 = NaN"
  shows "cumprod (map (\<lambda>r. fadd r (Fin 1)) xs) ! 0 = NaN"
  using assms by (cases xs) (simp_all add: cumprod_def nth_na_accum_0)

lemma unfilled_cumprod_1:
  assumes "Suc 0 < length xs" "xs ! 0 = NaN"
  shows "cumprod (map (\<lambda>r. fadd r (Fin 1)) xs) ! Suc 0 = fadd (xs ! Suc 0) (Fin 1)"
proof -
  from assms obtain y ys where xs: "xs = NaN # y # ys"
    by (cases xs; cases "tl xs") auto
  have "cumprod (map (\<lambda>r. fadd r (Fin 1)) (y # ys)) ! 0 = fadd y (Fin 1)"
    by (simp add: cumprod_def nth_na_accum_0)
  then show ?thesis
    by (simp add: xs cumprod_NaN_Cons)
qed

lemma unfilled_cumprod_step:
  assumes "0 < t" "t < length xs" "\<not> isnan (xs ! (t - 1))"
  shows "cumprod (map (\<lambda>r. fadd r (Fin 1)) xs) ! t =
         fmul (cumprod (map (\<lambda>r. fadd r (Fin 1)) xs) ! (t - 1)) (fadd (xs ! t) (Fin 1))"
proof -
  have "cumprod (map (\<lambda>r. fadd r (Fin 1)) xs) ! t =
        fmul (cumprod (map (\<lambda>r. fadd r (Fin 1)) xs) ! (t - 1))
             (map (\<lambda>r. fadd r (Fin 1)) xs ! t)"
    unfolding cumprod_def using assms
    by (intro na_accum_step) simp_all
  with assms show ?thesis by simp
qed

lemma Market_returns_0: "cs \<noteq> [] \<Longrightarrow> Market_returns cs ! 0 = NaN"
  by (simp add: Market_returns_def Close_v2_def nth_pct_change)

lemma Strategy_returns_0: "cs \<noteq> [] \<Longrightarrow> Strategy_returns cs ! 0 = NaN"
  using Market_returns_0 [of cs]
  by (simp add: Strategy_returns_def length_Market_returns length_Signal)

lemma daily_returns_0: "49 < length cs \<Longrightarrow> daily_returns cs ! 0 = NaN"
  by (simp add: daily_returns_def Close_v1_eq nth_pct_change)

lemma strategy_returns_0: "49 < length cs \<Longrightarrow> strategy_returns cs ! 0 = NaN"
  using daily_returns_0 [of cs]
  by (simp add: strategy_returns_def length_daily_returns length_Position)

lemma daily_returns_Fin:
  assumes "\<forall>c\<in>set cs. 0 < c" "0 < t" "t < length cs - 49"
  shows "\<exists>r. daily_returns cs ! t = Fin r"
proof -
  have "\<forall>c\<in>set (drop 49 cs). 0 < c"
    using assms(1) by (auto dest: in_set_dropD)
  from pct_change_Fin_pos(1) [OF this assms(2)] assms(3) show ?thesis
    by (simp add: daily_returns_def Close_v1_eq)
qed

lemma strategy_returns_Fin:
  assumes "\<forall>c\<in>set cs. 0 < c" "0 < t" "t < length cs - 49"
  shows "\<exists>s. strategy_returns cs ! t = Fin s"
proof -
  from assms(3) have "49 < length cs" by simp
  from strategy_returns_shape [OF assms(1) this] obtain ss
    where ss: "strategy_returns cs = NaN # map Fin ss" by blast
  from arg_cong [OF this, of length] assms(3) have "t - 1 < length ss"
    using assms(2) by (simp add: length_strategy_returns)
  with ss assms(2) show ?thesis
    by (cases t) simp_all
qed

subsection \<open>The cumulative series\<close>



lemma nth_daily_returns:
  "0 < t \<Longrightarrow> t < length cs - 49 \<Longrightarrow>
   daily_returns cs ! t = fsub (fdiv (Fin (cs ! (t + 49))) (Fin (cs ! (t + 48)))) (Fin 1)"
  by (simp add: daily_returns_def Close_v1_eq nth_pct_change add.commute)

lemma length_cumulative_returns: "length (cumulative_returns cs) = length cs - 49"
  by (simp add: cumulative_returns_def length_strategy_returns)

lemma length_buy_hold_returns: "length (buy_hold_returns cs) = length cs - 49"
  by (simp add: buy_hold_returns_def length_daily_returns)

lemma length_Cumulative_strategy: "length (Cumulative_strategy cs) = length cs"
  by (simp add: Cumulative_strategy_def length_Strategy_returns)

lemma length_Cumulative_market: "length (Cumulative_market cs) = length cs"
  by (simp add: Cumulative_market_def length_Market_returns)

text \<open>
  Fill-then-compound, as BacktesterV2 does it (lines 35 and 36): both cumulative series
  have one row per bar, start at 1 on the first row and satisfy
  \<open>cum[t] = cum[t-1] * (1 + return[t])\<close> on every later row.
\<close>

lemma fill_then_compound_v2:
  "length (Cumulative_strategy cs) = length cs \<and> length (Cumulative_market cs) = length cs \<and>
   (cs \<noteq> [] \<longrightarrow> Cumulative_strategy cs ! 0 = Fin 1 \<and> Cumulative_market cs ! 0 = Fin 1) \<and>
   (0 < t \<and> t < length cs \<longrightarrow>
      Cumulative_strategy cs ! t =
        fmul (Cumulative_strategy cs ! (t - 1)) (fadd (Fin 1) (fillna0 (Strategy_returns cs) ! t)) \<and>
      Cumulative_market cs ! t =
        fmul (Cumulative_market cs ! (t - 1)) (fadd (Fin 1) (fillna0 (Market_returns cs) ! t)))"
proof -
  have start2: "Cumulative_strategy cs ! 0 = Fin 1 \<and> Cumulative_market cs ! 0 = Fin 1"
    if "cs \<noteq> []"
  proof -
    from that have "Strategy_returns cs \<noteq> []" "Market_returns cs \<noteq> []"
      by (simp_all flip: length_greater_0_conv
          add: length_Strategy_returns length_Market_returns)
    with that show ?thesis
      unfolding Cumulative_strategy_def Cumulative_market_def
      by (simp add: filled_cumprod_0 Strategy_returns_0 Market_returns_0)
  qed
  have step2: "Cumulative_strategy cs ! t =
        fmul (Cumulative_strategy cs ! (t - 1)) (fadd (Fin 1) (fillna0 (Strategy_returns cs) ! t)) \<and>
      Cumulative_market cs ! t =
        fmul (Cumulative_market cs ! (t - 1)) (fadd (Fin 1) (fillna0 (Market_returns cs) ! t))"
    if "0 < t" "t < length cs"
    unfolding Cumulative_strategy_def Cumulative_market_def
    using that
    by (simp add: filled_cumprod_step length_Strategy_returns length_Market_returns)
  show ?thesis
    using start2 step2
    by (simp add: length_Cumulative_strategy length_Cumulative_market)
qed

text \<open>
  BacktesterV1 compounds without filling (lines 32 and 37): the first row of both of its
  cumulative series is NaN, the second row is \<open>1 + return[1]\<close>, and on a series of
  positive prices the product runs on from there.
\<close>

lemma compound_unfilled_v1:
  "length (cumulative_returns cs) = length cs - 49 \<and>
   length (buy_hold_returns cs) = length cs - 49 \<and>
   (49 < length cs \<longrightarrow> cumulative_returns cs ! 0 = NaN \<and> buy_hold_returns cs ! 0 = NaN) \<and>
   (50 < length cs \<longrightarrow>
      cumulative_returns cs ! 1 = fadd (strategy_returns cs ! 1) (Fin 1) \<and>
      buy_hold_returns cs ! 1 = fadd (daily_returns cs ! 1) (Fin 1)) \<and>
   ((\<forall>c\<in>set cs. 0 < c) \<and> 1 < t \<and> t < length cs - 49 \<longrightarrow>
      cumulative_returns cs ! t =
        fmul (cumulative_returns cs ! (t - 1)) (fadd (strategy_returns cs ! t) (Fin 1)) \<and>
      buy_hold_returns cs ! t =
        fmul (buy_hold_returns cs ! (t - 1)) (fadd (daily_returns cs ! t) (Fin 1)))"
proof -
  have start1: "cumulative_returns cs ! 0 = NaN \<and> buy_hold_returns cs ! 0 = NaN"
    if "49 < length cs"
  proof -
    from that have "strategy_returns cs \<noteq> []" "daily_returns cs \<noteq> []"
      by (simp_all flip: length_greater_0_conv
          add: length_strategy_returns length_daily_returns)
    with that show ?thesis
      unfolding cumulative_returns_def buy_hold_returns_def
      by (simp add: unfilled_cumprod_0 strategy_returns_0 daily_returns_0)
  qed
  have first1: "cumulative_returns cs ! 1 = fadd (strategy_returns cs ! 1) (Fin 1) \<and>
      buy_hold_returns cs ! 1 = fadd (daily_returns cs ! 1) (Fin 1)"
    if "50 < length cs"
    unfolding cumulative_returns_def buy_hold_returns_def
    using that
    by (simp add: unfilled_cumprod_1 strategy_returns_0 daily_returns_0
        length_strategy_returns length_daily_returns)
  have step1: "cumulative_returns cs ! t =
        fmul (cumulative_returns cs ! (t - 1)) (fadd (strategy_returns cs ! t) (Fin 1)) \<and>
      buy_hold_returns cs ! t =
        fmul (buy_hold_returns cs ! (t - 1)) (fadd (daily_returns cs ! t) (Fin 1))"
    if pos: "\<forall>c\<in>set cs. 0 < c" and t: "1 < t" "t < length cs - 49"
  proof -
    from t have prev: "0 < t - 1" "t - 1 < length cs - 49"
      by simp_all
    from strategy_returns_Fin [OF pos prev] have "\<not> isnan (strategy_returns cs ! (t - 1))"
      by auto
    moreover from daily_returns_Fin [OF pos prev] have "\<not> isnan (daily_returns cs ! (t - 1))"
      by auto
    ultimately show ?thesis
      unfolding cumulative_returns_def buy_hold_returns_def
      using t
      by (simp add: unfilled_cumprod_step length_strategy_returns length_daily_returns)
  qed
  show ?thesis
    using start1 first1 step1
    by (simp add: length_cumulative_returns length_buy_hold_returns)
qed

text \<open>
  BacktesterV1 on 49 closes of 1 followed by 2, 1.8 and 1.8. The three last bars survive
  the second \<open>dropna\<close>; the fast average is above the slow one on each of them, so the
  strategy is long from the first and loses the tenth by which the price falls on the
  second.
\<close>

lemma fall_Position:
  "Position (replicate 49 1 @ [2, 9 / 5, 9 / 5]) = [Fin 1, Fin 1, Fin 1]"
  by (simp add: Position_def SMA_10_v1_eq SMA_50_v1_eq rolling_mean_def drop_map upt_conv_Cons
      fgt_def sum_list_replicate)

lemma fall_daily_returns:
  "daily_returns (replicate 49 1 @ [2, 9 / 5, 9 / 5]) = [NaN, Fin (- 1 / 10), Fin 0]"
  by (simp add: daily_returns_def Close_v1_eq pct_change_def shift1_def drop_map)

lemma fall_strategy_returns:
  "strategy_returns (replicate 49 1 @ [2, 9 / 5, 9 / 5]) = [NaN, Fin (- 1 / 10), Fin 0]"
  by (simp add: strategy_returns_def fall_daily_returns fall_Position shift1_def)

lemma fall_cumulative_returns:
  "cumulative_returns (replicate 49 1 @ [2, 9 / 5, 9 / 5]) = [NaN, Fin (9 / 10), Fin (9 / 10)]"
  by (simp add: cumulative_returns_def fall_strategy_returns cumprod_def na_accum_def)

lemma fall_filled:
  "cumprod (map (fadd (Fin 1)) (fillna0 (strategy_returns (replicate 49 1 @ [2, 9 / 5, 9 / 5])))) =
     [Fin 1, Fin (9 / 10), Fin (9 / 10)]"
  by (simp add: fall_strategy_returns fillna0_def cumprod_def na_accum_def)

text \<open>
  Claim C3, on BacktesterV1. The claim asks for a cumulative series that starts at 1.0 and
  grows by the factor \<open>1 + return[t]\<close> on every later row, the undefined first return
  counting as 0. BacktesterV2 does that (\<open>fill_then_compound_v2\<close>); BacktesterV1
  compounds the unfilled returns. On 49 closes of 1 followed by 2, 1.8 and 1.8 both of its
  cumulative series are NaN on the first row and 0.9 on the two others: no row holds the
  starting value 1.0, and the second row is not the first times \<open>1 + return[1]\<close>, which
  is NaN. Filling before compounding, as line 36 of BacktesterV2 does, gives 1.0, 0.9, 0.9
  on the same returns.
\<close>

theorem cumulative_gap_v1:
  "strategy_returns (replicate 49 1 @ [2, 9 / 5, 9 / 5]) = [NaN, Fin (- 1 / 10), Fin 0] \<and>
   cumulative_returns (replicate 49 1 @ [2, 9 / 5, 9 / 5]) = [NaN, Fin (9 / 10), Fin (9 / 10)] \<and>
   buy_hold_returns (replicate 49 1 @ [2, 9 / 5, 9 / 5]) = [NaN, Fin (9 / 10), Fin (9 / 10)] \<and>
   fmul (cumulative_returns (replicate 49 1 @ [2, 9 / 5, 9 / 5]) ! 0)
        (fadd (strategy_returns (replicate 49 1 @ [2, 9 / 5, 9 / 5]) ! 1) (Fin 1)) = NaN \<and>
   cumprod (map (fadd (Fin 1)) (fillna0 (strategy_returns (replicate 49 1 @ [2, 9 / 5, 9 / 5])))) =
     [Fin 1, Fin (9 / 10), Fin (9 / 10)]"
proof -
  have b: "buy_hold_returns (replicate 49 1 @ [2, 9 / 5, 9 / 5]) =
      [NaN, Fin (9 / 10), Fin (9 / 10)]"
    by (simp add: buy_hold_returns_def fall_daily_returns cumprod_def na_accum_def)
  have g: "fmul (cumulative_returns (replicate 49 1 @ [2, 9 / 5, 9 / 5]) ! 0)
        (fadd (strategy_returns (replicate 49 1 @ [2, 9 / 5, 9 / 5]) ! 1) (Fin 1)) = NaN"
    by (simp add: fall_cumulative_returns)
  from fall_strategy_returns fall_cumulative_returns b g fall_filled show ?thesis
    by (intro conjI)
qed

subsection \<open>Peaks and drawdowns\<close>

lemma fillna0_NaN_Fin: "fillna0 (NaN # map Fin ss) = map Fin (0 # ss)"
  by (simp add: fillna0_def)

lemma cumprod_positive:
  assumes "\<forall>u\<in>set us. 0 < u"
  shows "\<exists>vs. cumprod (map Fin us) = map Fin vs \<and> length vs = length us \<and> (\<forall>v\<in>set vs. 0 < v)"
proof -
  let ?vs = "map (\<lambda>t. prod_list (take (Suc t) us)) [0..<length us]"
  have "0 < prod_list (take n us)" for n
    using assms by (intro prod_list_pos) (auto dest: in_set_takeD)
  then have "\<forall>v\<in>set ?vs. 0 < v"
    by auto
  then have "cumprod (map Fin us) = map Fin ?vs \<and> length ?vs = length us \<and> (\<forall>v\<in>set ?vs. 0 < v)"
    by (simp add: cumprod_Fin)
  then show ?thesis by (rule exI)
qed

lemma Cumulative_strategy_shape:
  assumes "\<forall>c\<in>set cs. 0 < c" "cs \<noteq> []"
  shows "\<exists>vs. Cumulative_strategy cs = map Fin vs \<and> length vs = length cs \<and>
               (\<forall>v\<in>set vs. 0 < v)"
proof -
  from Strategy_returns_shape [OF assms] obtain ss
    where ss: "Strategy_returns cs = NaN # map Fin ss" "\<forall>s\<in>set ss. 0 < 1 + s"
    by blast
  let ?us = "map (\<lambda>s. 1 + s) (0 # ss)"
  have us: "map (fadd (Fin 1)) (fillna0 (Strategy_returns cs)) = map Fin ?us"
    by (simp add: ss(1) fillna0_NaN_Fin)
  have "\<forall>u\<in>set ?us. 0 < u"
    using ss(2) by auto
  from cumprod_positive [OF this] obtain vs
    where vs: "cumprod (map Fin ?us) = map Fin vs" "length vs = length ?us" "\<forall>v\<in>set vs. 0 < v"
    by blast
  from arg_cong [OF ss(1), of length] have "length ?us = length cs"
    by (simp add: length_Strategy_returns)
  with vs us have "Cumulative_strategy cs = map Fin vs \<and> length vs = length cs \<and>
               (\<forall>v\<in>set vs. 0 < v)"
    by (simp add: Cumulative_strategy_def)
  then show ?thesis by (rule exI)
qed

lemma cumulative_returns_shape:
  assumes "\<forall>c\<in>set cs. 0 < c" "49 < length cs"
  shows "\<exists>vs. cumulative_returns cs = NaN # map Fin vs \<and> Suc (length vs) = length cs - 49 \<and>
               (\<forall>v\<in>set vs. 0 < v)"
proof -
  from strategy_returns_shape [OF assms] obtain ss
    where ss: "strategy_returns cs = NaN # map Fin ss" "\<forall>s\<in>set ss. 0 < 1 + s"
    by blast
  let ?us = "map (\<lambda>s. s + 1) ss"
  have us: "map (\<lambda>r. fadd r (Fin 1)) (strategy_returns cs) = NaN # map Fin ?us"
    by (simp add: ss(1))
  have "\<forall>u\<in>set ?us. 0 < u"
    using ss(2) by (auto simp: add.commute)
  from cumprod_positive [OF this] obtain vs
    where vs: "cumprod (map Fin ?us) = map Fin vs" "length vs = length ?us" "\<forall>v\<in>set vs. 0 < v"
    by blast
  from arg_cong [OF ss(1), of length] have "Suc (length ?us) = length cs - 49"
    by (simp add: length_strategy_returns)
  with vs us have "cumulative_returns cs = NaN # map Fin vs \<and> Suc (length vs) = length cs - 49 \<and>
               (\<forall>v\<in>set vs. 0 < v)"
    by (simp add: cumulative_returns_def cumprod_NaN_Cons)
  then show ?thesis by (rule exI)
qed

text \<open>The values of a column up to a row, and the values of a whole column.\<close>

lemma values_upto_Fin:
  assumes "t < length vs"
  shows "{y. \<exists>i\<le>t. map Fin vs ! i = Fin y} = set (take (Suc t) vs)"
proof (rule set_eqI)
  fix y
  have "(\<exists>i\<le>t. map Fin vs ! i = Fin y) = (\<exists>i\<le>t. vs ! i = y)"
    using assms by auto
  also have "\<dots> = (\<exists>i<Suc t. take (Suc t) vs ! i = y)"
    by (auto simp: less_Suc_eq_le)
  also have "\<dots> = (y \<in> set (take (Suc t) vs))"
    using assms by (simp add: in_set_conv_nth min_absorb2 Suc_leI)
  finally show "(y \<in> {y. \<exists>i\<le>t. map Fin vs ! i = Fin y}) = (y \<in> set (take (Suc t) vs))"
    by simp
qed

lemma values_upto_NaN_Fin:
  assumes "t < length vs"
  shows "{y. \<exists>i\<le>Suc t. (NaN # map Fin vs) ! i = Fin y} = set (take (Suc t) vs)"
proof -
  have "(\<exists>i\<le>Suc t. (NaN # map Fin vs) ! i = Fin y) = (\<exists>i\<le>t. map Fin vs ! i = Fin y)" for y
  proof
    assume "\<exists>i\<le>Suc t. (NaN # map Fin vs) ! i = Fin y"
    then obtain i where i: "i \<le> Suc t" "(NaN # map Fin vs) ! i = Fin y"
      by blast
    then obtain k where "i = Suc k"
      by (cases i) auto
    with i show "\<exists>i\<le>t. map Fin vs ! i = Fin y"
      by auto
  next
    assume "\<exists>i\<le>t. map Fin vs ! i = Fin y"
    then obtain i where "i \<le> t" "map Fin vs ! i = Fin y"
      by blast
    then have "Suc i \<le> Suc t \<and> (NaN # map Fin vs) ! Suc i = Fin y"
      by simp
    then show "\<exists>i\<le>Suc t. (NaN # map Fin vs) ! i = Fin y"
      by blast
  qed
  with values_upto_Fin [OF assms] show ?thesis by simp
qed

lemma values_Fin: "{d. Fin d \<in> set (map Fin ds)} = set ds"
  by auto

lemma values_NaN_Fin: "{d. Fin d \<in> set (NaN # map Fin ds)} = set ds"
  by auto

text \<open>Drawdown of a column of positive finite values, and of one with a leading NaN.\<close>

lemma drawdown_col_Fin:
  assumes pos: "\<forall>v\<in>set vs. 0 < v"
  shows "map2 (\<lambda>c m. fsub (fdiv c m) (Fin 1)) (map Fin vs) (cummax (map Fin vs)) =
         map Fin (map (\<lambda>t. vs ! t / Max (set (take (Suc t) vs)) - 1) [0..<length vs])"
proof (rule nth_equalityI)
  show "length (map2 (\<lambda>c m. fsub (fdiv c m) (Fin 1)) (map Fin vs) (cummax (map Fin vs))) =
        length (map Fin (map (\<lambda>t. vs ! t / Max (set (take (Suc t) vs)) - 1) [0..<length vs]))"
    by simp
next
  fix t assume "t < length (map2 (\<lambda>c m. fsub (fdiv c m) (Fin 1)) (map Fin vs) (cummax (map Fin vs)))"
  then have t: "t < length vs"
    by simp
  have "map2 (\<lambda>c m. fsub (fdiv c m) (Fin 1)) (map Fin vs) (cummax (map Fin vs)) ! t =
        Fin (vs ! t / Max (set (take (Suc t) vs)) - 1)"
    by (rule drawdown_Fin(1)) (use pos t in auto)
  with t show "map2 (\<lambda>c m. fsub (fdiv c m) (Fin 1)) (map Fin vs) (cummax (map Fin vs)) ! t =
        map Fin (map (\<lambda>t. vs ! t / Max (set (take (Suc t) vs)) - 1) [0..<length vs]) ! t"
    by simp
qed

lemma drawdown_col_NaN_Cons:
  "map2 (\<lambda>c m. fsub (fdiv c m) (Fin 1)) (NaN # xs) (cummax (NaN # xs)) =
   NaN # map2 (\<lambda>c m. fsub (fdiv c m) (Fin 1)) xs (cummax xs)"
  by (simp add: cummax_NaN_Cons)

lemma drawdown_facts_Fin:
  assumes pos: "\<forall>v\<in>set vs. 0 < v" and t: "t < length vs"
  shows "cummax (map Fin vs) ! t = Fin (Max {y. \<exists>i\<le>t. map Fin vs ! i = Fin y})"
    and "map2 (\<lambda>c m. fsub (fdiv c m) (Fin 1)) (map Fin vs) (cummax (map Fin vs)) ! t =
         Fin (vs ! t / Max {y. \<exists>i\<le>t. map Fin vs ! i = Fin y} - 1)"
    and "vs ! t / Max {y. \<exists>i\<le>t. map Fin vs ! i = Fin y} - 1 \<le> 0"
proof -
  note v = values_upto_Fin [OF t]
  show "cummax (map Fin vs) ! t = Fin (Max {y. \<exists>i\<le>t. map Fin vs ! i = Fin y})"
    unfolding v using t by (simp add: cummax_Fin)
  show "map2 (\<lambda>c m. fsub (fdiv c m) (Fin 1)) (map Fin vs) (cummax (map Fin vs)) ! t =
         Fin (vs ! t / Max {y. \<exists>i\<le>t. map Fin vs ! i = Fin y} - 1)"
    unfolding v by (rule drawdown_Fin(1)) (use pos t in auto)
  show "vs ! t / Max {y. \<exists>i\<le>t. map Fin vs ! i = Fin y} - 1 \<le> 0"
    unfolding v by (rule drawdown_Fin(2)) (use pos t in auto)
qed

lemma max_dd_Fin:
  assumes pos: "\<forall>v\<in>set vs. 0 < v" and ne: "vs \<noteq> []"
  shows "series_min (map2 (\<lambda>c m. fsub (fdiv c m) (Fin 1)) (map Fin vs) (cummax (map Fin vs))) =
         Fin (Min {d. Fin d \<in> set (map2 (\<lambda>c m. fsub (fdiv c m) (Fin 1)) (map Fin vs)
                                      (cummax (map Fin vs)))})"
  unfolding drawdown_col_Fin [OF pos] values_Fin
  using ne by (intro series_min_Fin) simp

lemma drawdown_v2_row:
  assumes pos: "\<forall>c\<in>set cs. 0 < c" and t: "t < length cs"
  shows "\<exists>c m. Cumulative_strategy cs ! t = Fin c \<and> Peak cs ! t = Fin m \<and>
           m = Max {y. \<exists>i\<le>t. Cumulative_strategy cs ! i = Fin y} \<and>
           Drawdown_v2 cs ! t = Fin (c / m - 1) \<and> c / m - 1 \<le> 0"
proof -
  from t have "cs \<noteq> []" by auto
  from Cumulative_strategy_shape [OF pos this] obtain vs
    where vs: "Cumulative_strategy cs = map Fin vs" "length vs = length cs" "\<forall>v\<in>set vs. 0 < v"
    by blast
  from t vs(2) have tv: "t < length vs" by simp
  note f = drawdown_facts_Fin [OF vs(3) tv]
  let ?m = "Max {y. \<exists>i\<le>t. map Fin vs ! i = Fin y}"
  have "Cumulative_strategy cs ! t = Fin (vs ! t) \<and> Peak cs ! t = Fin ?m \<and>
           ?m = Max {y. \<exists>i\<le>t. Cumulative_strategy cs ! i = Fin y} \<and>
           Drawdown_v2 cs ! t = Fin (vs ! t / ?m - 1) \<and> vs ! t / ?m - 1 \<le> 0"
    using f tv by (simp add: Peak_def Drawdown_v2_def vs(1))
  then show ?thesis by blast
qed

lemma max_dd_v2_min:
  assumes pos: "\<forall>c\<in>set cs. 0 < c" and ne: "cs \<noteq> []"
  shows "max_dd_v2 cs = Fin (Min {d. Fin d \<in> set (Drawdown_v2 cs)})"
proof -
  from Cumulative_strategy_shape [OF pos ne] obtain vs
    where vs: "Cumulative_strategy cs = map Fin vs" "length vs = length cs" "\<forall>v\<in>set vs. 0 < v"
    by blast
  from ne vs(2) have "vs \<noteq> []" by auto
  from max_dd_Fin [OF vs(3) this] show ?thesis
    by (simp add: max_dd_v2_def Drawdown_v2_def Peak_def vs(1))
qed

lemma drawdown_v1_first: "49 < length cs \<Longrightarrow> Drawdown_v1 cs ! 0 = NaN"
proof -
  assume len: "49 < length cs"
  then have "strategy_returns cs \<noteq> []"
    by (simp flip: length_greater_0_conv add: length_strategy_returns)
  from unfilled_cumprod_0 [OF this strategy_returns_0 [OF len]]
  have "cumulative_returns cs ! 0 = NaN"
    by (simp add: cumulative_returns_def)
  with len show ?thesis
    by (simp add: Drawdown_v1_def Running_max_def length_cumulative_returns)
qed

lemma drawdown_v1_row:
  assumes pos: "\<forall>c\<in>set cs. 0 < c" and t: "0 < t" "t < length cs - 49"
  shows "\<exists>c m. cumulative_returns cs ! t = Fin c \<and> Running_max cs ! t = Fin m \<and>
           m = Max {y. \<exists>i\<le>t. cumulative_returns cs ! i = Fin y} \<and>
           Drawdown_v1 cs ! t = Fin (c / m - 1) \<and> c / m - 1 \<le> 0"
proof -
  from t have "49 < length cs" by simp
  from cumulative_returns_shape [OF pos this] obtain vs
    where vs: "cumulative_returns cs = NaN # map Fin vs" "Suc (length vs) = length cs - 49"
      "\<forall>v\<in>set vs. 0 < v"
    by blast
  from t obtain k where k: "t = Suc k" by (cases t) auto
  with t vs(2) have kv: "k < length vs" by simp
  note f = drawdown_facts_Fin [OF vs(3) kv]
  let ?m = "Max {y. \<exists>i\<le>k. map Fin vs ! i = Fin y}"
  have m: "?m = Max {y. \<exists>i\<le>Suc k. (NaN # map Fin vs) ! i = Fin y}"
    by (simp only: values_upto_NaN_Fin [OF kv] values_upto_Fin [OF kv])
  have "cumulative_returns cs ! t = Fin (vs ! k) \<and> Running_max cs ! t = Fin ?m \<and>
           ?m = Max {y. \<exists>i\<le>t. cumulative_returns cs ! i = Fin y} \<and>
           Drawdown_v1 cs ! t = Fin (vs ! k / ?m - 1) \<and> vs ! k / ?m - 1 \<le> 0"
    unfolding Running_max_def Drawdown_v1_def vs(1) k drawdown_col_NaN_Cons cummax_NaN_Cons
    using f kv m by simp
  then show ?thesis by blast
qed

lemma max_dd_v1_min:
  assumes pos: "\<forall>c\<in>set cs. 0 < c" and len: "50 < length cs"
  shows "max_dd_v1 cs = Fin (Min {d. Fin d \<in> set (Drawdown_v1 cs)})"
proof -
  from len have "49 < length cs" by simp
  from cumulative_returns_shape [OF pos this] obtain vs
    where vs: "cumulative_returns cs = NaN # map Fin vs" "Suc (length vs) = length cs - 49"
      "\<forall>v\<in>set vs. 0 < v"
    by blast
  from len vs(2) have ne: "vs \<noteq> []" by auto
  have "Drawdown_v1 cs = NaN # map2 (\<lambda>c m. fsub (fdiv c m) (Fin 1)) (map Fin vs) (cummax (map Fin vs))"
    unfolding Running_max_def Drawdown_v1_def vs(1) by (rule drawdown_col_NaN_Cons)
  then have d: "Drawdown_v1 cs =
      NaN # map Fin (map (\<lambda>t. vs ! t / Max (set (take (Suc t) vs)) - 1) [0..<length vs])"
    by (simp only: drawdown_col_Fin [OF vs(3)])
  show ?thesis
    unfolding max_dd_v1_def d values_NaN_Fin series_min_NaN_Cons
    using ne by (intro series_min_Fin) simp
qed

text \<open>
  For a series of positive prices: on every row of BacktesterV2, and on every row of
  BacktesterV1 after the first, the cumulative series has a value \<open>c\<close>, the peak is
  the maximum \<open>m\<close> of the cumulative values up to and including that row, and the
  drawdown is \<open>c / m - 1\<close>, at most 0; the reported maximum drawdown is the minimum of
  the drawdown values. The first row of BacktesterV1 has no drawdown value.
\<close>

lemma drawdown_rows:
  assumes "\<forall>c\<in>set cs. 0 < c"
  shows "(t < length cs \<longrightarrow>
           (\<exists>c m. Cumulative_strategy cs ! t = Fin c \<and> Peak cs ! t = Fin m \<and>
              m = Max {y. \<exists>i\<le>t. Cumulative_strategy cs ! i = Fin y} \<and>
              Drawdown_v2 cs ! t = Fin (c / m - 1) \<and> c / m - 1 \<le> 0)) \<and>
         (cs \<noteq> [] \<longrightarrow> max_dd_v2 cs = Fin (Min {d. Fin d \<in> set (Drawdown_v2 cs)})) \<and>
         (49 < length cs \<longrightarrow> Drawdown_v1 cs ! 0 = NaN) \<and>
         (0 < t \<and> t < length cs - 49 \<longrightarrow>
           (\<exists>c m. cumulative_returns cs ! t = Fin c \<and> Running_max cs ! t = Fin m \<and>
              m = Max {y. \<exists>i\<le>t. cumulative_returns cs ! i = Fin y} \<and>
              Drawdown_v1 cs ! t = Fin (c / m - 1) \<and> c / m - 1 \<le> 0)) \<and>
         (50 < length cs \<longrightarrow> max_dd_v1 cs = Fin (Min {d. Fin d \<in> set (Drawdown_v1 cs)}))"
  using drawdown_v2_row [OF assms, of t] max_dd_v2_min [OF assms]
    drawdown_v1_first [of cs] drawdown_v1_row [OF assms, of t] max_dd_v1_min [OF assms]
  by blast

lemma length_Drawdown_v1: "length (Drawdown_v1 cs) = length cs - 49"
  by (simp add: Drawdown_v1_def Running_max_def length_cumulative_returns)

lemma length_Drawdown_v2: "length (Drawdown_v2 cs) = length cs"
  by (simp add: Drawdown_v2_def Peak_def length_Cumulative_strategy)

lemma fall_Running_max:
  "Running_max (replicate 49 1 @ [2, 9 / 5, 9 / 5]) = [NaN, Fin (9 / 10), Fin (9 / 10)]"
  by (simp add: Running_max_def fall_cumulative_returns cummax_def na_accum_def fmax_def)

lemma fall_Drawdown_v1:
  "Drawdown_v1 (replicate 49 1 @ [2, 9 / 5, 9 / 5]) = [NaN, Fin 0, Fin 0]"
  by (simp add: Drawdown_v1_def fall_Running_max fall_cumulative_returns)

lemma fall_max_dd_v1: "max_dd_v1 (replicate 49 1 @ [2, 9 / 5, 9 / 5]) = Fin 0"
  by (simp add: max_dd_v1_def fall_Drawdown_v1 series_min_def dropna_def fmin_def)

lemma fall_filled_drawdown:
  "(let c = cumprod (map (fadd (Fin 1))
              (fillna0 (strategy_returns (replicate 49 1 @ [2, 9 / 5, 9 / 5]))));
        d = map2 (\<lambda>c m. fsub (fdiv c m) (Fin 1)) c (cummax c)
    in d = [Fin 0, Fin (- 1 / 10), Fin (- 1 / 10)] \<and> series_min d = Fin (- 1 / 10))"
  unfolding fall_filled
  by (simp add: cummax_def na_accum_def fmax_def series_min_def dropna_def fmin_def)

text \<open>
  Claim C6, on BacktesterV1. The claim asks for a drawdown
  \<open>cumulative[t] / running_max[t] - 1\<close> that is at most 0 on every row, and for the
  minimum of these as the maximum drawdown. BacktesterV2 does that on every row
  (\<open>drawdown_v2_row\<close>, \<open>max_dd_v2_min\<close>). BacktesterV1 takes the drawdown of the
  cumulative series it compounded without filling, whose first row is NaN: on 49 closes of
  1 followed by 2, 1.8 and 1.8 the strategy is long when the price falls by a tenth, yet
  the running maximum starts at 0.9, the drawdown column is NaN, 0, 0 and the maximum
  drawdown it reports is 0. On the cumulative series that starts at 1.0 (the same returns,
  filled before compounding as in line 36 of BacktesterV2) the drawdown is 0, -0.1, -0.1
  and its minimum is -0.1.
\<close>

theorem drawdown_undefined_v1:
  "Running_max (replicate 49 1 @ [2, 9 / 5, 9 / 5]) = [NaN, Fin (9 / 10), Fin (9 / 10)] \<and>
   Drawdown_v1 (replicate 49 1 @ [2, 9 / 5, 9 / 5]) = [NaN, Fin 0, Fin 0] \<and>
   max_dd_v1 (replicate 49 1 @ [2, 9 / 5, 9 / 5]) = Fin 0 \<and>
   (let c = cumprod (map (fadd (Fin 1))
              (fillna0 (strategy_returns (replicate 49 1 @ [2, 9 / 5, 9 / 5]))));
        d = map2 (\<lambda>c m. fsub (fdiv c m) (Fin 1)) c (cummax c)
    in d = [Fin 0, Fin (- 1 / 10), Fin (- 1 / 10)] \<and> series_min d = Fin (- 1 / 10))"
  using fall_Running_max fall_Drawdown_v1 fall_max_dd_v1 fall_filled_drawdown
  by (intro conjI)

subsection \<open>Exponentially weighted averages\<close>

lemma foldl_fadd_Fin: "foldl fadd (Fin a) (map Fin rs) = Fin (a + sum_list rs)"
  by (induction rs arbitrary: a) (simp_all add: add.assoc)

lemma fsum_Fin: "fsum (map Fin rs) = Fin (sum_list rs)"
  by (simp add: fsum_def foldl_fadd_Fin)

lemma ewm_weights_Fin:
  "ewm_weights c (map Fin ys) =
   map (\<lambda>(w, y). (w, Fin y)) (zip (map (\<lambda>i. (1 - 1 / (1 + c)) ^ i) [0..<length ys]) (rev ys))"
proof -
  have "filter (\<lambda>(w, x). \<not> isnan x) (map (\<lambda>(w, y). (w, Fin y)) zs) = map (\<lambda>(w, y). (w, Fin y)) zs"
    for zs :: "(real \<times> real) list"
    by (induction zs) auto
  then show ?thesis
    by (simp add: ewm_weights_def rev_map zip_map2)
qed

lemma ewm_row_Fin:
  "ewm_row c m (map Fin ys) =
     (if length ys < m then NaN
      else fdiv (Fin (sum_list (map (\<lambda>(w, y). w * y)
                    (zip (map (\<lambda>i. (1 - 1 / (1 + c)) ^ i) [0..<length ys]) (rev ys)))))
                (Fin (sum_list (map (\<lambda>i. (1 - 1 / (1 + c)) ^ i) [0..<length ys]))))"
proof -
  let ?W = "map (\<lambda>i. (1 - 1 / (1 + c)) ^ i) [0..<length ys]"
  let ?zs = "rev ys"
  have num: "map (\<lambda>(w, x). fmul (Fin w) x) (map (\<lambda>(w, y). (w, Fin y)) (zip ?W ?zs)) =
             map Fin (map (\<lambda>(w, y). w * y) (zip ?W ?zs))"
    by (simp add: case_prod_unfold)
  have "map fst (map (\<lambda>(w, y). (w, Fin y)) (zip ?W ?zs)) = map fst (zip ?W ?zs)"
    by (simp add: case_prod_unfold comp_def)
  also have "\<dots> = ?W"
    by (rule map_fst_zip) simp
  finally have den: "map fst (map (\<lambda>(w, y). (w, Fin y)) (zip ?W ?zs)) = ?W" .
  show ?thesis
    unfolding ewm_row_def ewm_weights_Fin Let_def num den fsum_Fin
    by simp
qed

lemma nth_ewm_mean: "t < length xs \<Longrightarrow> ewm_mean c m xs ! t = ewm_row c m (take (Suc t) xs)"
  by (simp add: ewm_mean_def)

lemma weights_sum_ge_1:
  assumes "0 \<le> (q :: real)" "0 < n"
  shows "1 \<le> sum_list (map (\<lambda>i. q ^ i) [0..<n])"
proof -
  from assms(2) have "[0..<n] = 0 # [Suc 0..<n]"
    by (simp add: upt_conv_Cons)
  then have "sum_list (map (\<lambda>i. q ^ i) [0..<n]) = 1 + sum_list (map (\<lambda>i. q ^ i) [Suc 0..<n])"
    by simp
  moreover have "0 \<le> sum_list (map (\<lambda>i. q ^ i) [Suc 0..<n])"
    by (rule sum_list_nonneg) (use assms(1) in auto)
  ultimately show ?thesis by simp
qed

lemma weighted_sum_nonneg:
  assumes "0 \<le> q" "\<forall>y\<in>set ys. 0 \<le> y"
  shows "0 \<le> sum_list (map (\<lambda>(w, y). w * y) (zip (map (\<lambda>i. q ^ i) [0..<n]) (ys :: real list)))"
proof (rule sum_list_nonneg)
  fix x assume "x \<in> set (map (\<lambda>(w, y). w * y) (zip (map (\<lambda>i. q ^ i) [0..<n]) ys))"
  then obtain w y where wy: "(w, y) \<in> set (zip (map (\<lambda>i. q ^ i) [0..<n]) ys)" "x = w * y"
    by auto
  from set_zip_leftD [OF wy(1)] assms(1) have "0 \<le> w" by auto
  moreover from set_zip_rightD [OF wy(1)] assms(2) have "0 \<le> y" by auto
  ultimately show "0 \<le> x" by (simp add: wy(2))
qed

text \<open>An average of non-negative observations is NaN during warm-up and a non-negative
  finite number afterwards.\<close>

lemma ewm_row_nonneg:
  assumes "0 \<le> c" "\<forall>y\<in>set ys. 0 \<le> y" "ys \<noteq> []"
  shows "ewm_row c m (map Fin ys) = NaN \<and> length ys < m \<or>
         (\<exists>a. ewm_row c m (map Fin ys) = Fin a \<and> 0 \<le> a \<and> m \<le> length ys)"
proof (cases "length ys < m")
  case True
  then show ?thesis by (simp add: ewm_row_Fin)
next
  case False
  let ?q = "1 - 1 / (1 + c)"
  from assms(1) have q: "0 \<le> ?q" by simp
  have "1 \<le> sum_list (map (\<lambda>i. ?q ^ i) [0..<length ys])"
    by (intro weights_sum_ge_1 q) (use assms(3) in simp)
  moreover have "0 \<le> sum_list (map (\<lambda>(w, y). w * y)
      (zip (map (\<lambda>i. ?q ^ i) [0..<length ys]) (rev ys)))"
    by (intro weighted_sum_nonneg q) (use assms(2) in simp)
  ultimately show ?thesis
    using False by (simp add: ewm_row_Fin)
qed

subsection \<open>The relative-strength index\<close>

lemma nth_Change:
  "t < length cs \<Longrightarrow>
   Change cs ! t = (if t = 0 then NaN else Fin (cs ! t - cs ! (t - 1)))"
  by (simp add: Change_def diff_def Close_v2_def nth_shift1)

lemma nth_Gain:
  "t < length cs \<Longrightarrow>
   Gain cs ! t = (if 0 < t \<and> cs ! (t - 1) < cs ! t then Fin (cs ! t - cs ! (t - 1)) else Fin 0)"
  by (simp add: Gain_def length_Change nth_Change fgt_def)

lemma nth_Loss:
  "t < length cs \<Longrightarrow>
   Loss cs ! t = (if 0 < t \<and> cs ! t < cs ! (t - 1) then Fin (cs ! (t - 1) - cs ! t) else Fin 0)"
  by (simp add: Loss_def length_Change nth_Change)

lemma Gain_shape: "\<exists>gs. Gain cs = map Fin gs \<and> (\<forall>g\<in>set gs. 0 \<le> g)"
proof (rule all_Fin_map)
  fix x assume "x \<in> set (Gain cs)"
  then obtain t where "t < length cs" "Gain cs ! t = x"
    by (auto simp: in_set_conv_nth Gain_def length_Change)
  then show "\<exists>y\<ge>0. x = Fin y"
    by (auto simp: nth_Gain split: if_splits)
qed

lemma Loss_shape: "\<exists>ls. Loss cs = map Fin ls \<and> (\<forall>l\<in>set ls. 0 \<le> l)"
proof (rule all_Fin_map)
  fix x assume "x \<in> set (Loss cs)"
  then obtain t where "t < length cs" "Loss cs ! t = x"
    by (auto simp: in_set_conv_nth Loss_def length_Change)
  then show "\<exists>y\<ge>0. x = Fin y"
    by (auto simp: nth_Loss split: if_splits)
qed

lemma ewm_mean_nonneg:
  assumes "0 \<le> c" "\<forall>y\<in>set ys. 0 \<le> y" "t < length ys"
  shows "ewm_mean c m (map Fin ys) ! t = NaN \<and> Suc t < m \<or>
         (\<exists>a. ewm_mean c m (map Fin ys) ! t = Fin a \<and> 0 \<le> a \<and> m \<le> Suc t)"
proof -
  have "\<forall>y\<in>set (take (Suc t) ys). 0 \<le> y"
    using assms(2) by (auto dest: in_set_takeD)
  moreover have "take (Suc t) ys \<noteq> []"
    using assms(3) by auto
  ultimately show ?thesis
    using ewm_row_nonneg [of c "take (Suc t) ys" m] assms(1,3)
    by (simp add: nth_ewm_mean take_map)
qed

lemma averages_cases:
  assumes "t < length cs"
  shows "Avg_Gain cs ! t = NaN \<and> Avg_Loss cs ! t = NaN \<and> t < 13 \<or>
         (\<exists>g l. Avg_Gain cs ! t = Fin g \<and> Avg_Loss cs ! t = Fin l \<and> 0 \<le> g \<and> 0 \<le> l \<and> 13 \<le> t)"
proof -
  from Gain_shape obtain gs where gs: "Gain cs = map Fin gs" "\<forall>g\<in>set gs. 0 \<le> g"
    by blast
  from Loss_shape obtain ls where ls: "Loss cs = map Fin ls" "\<forall>l\<in>set ls. 0 \<le> l"
    by blast
  from arg_cong [OF gs(1), of length] assms have tg: "t < length gs"
    by (simp add: Gain_def length_Change)
  from arg_cong [OF ls(1), of length] assms have tl: "t < length ls"
    by (simp add: Loss_def length_Change)
  from ewm_mean_nonneg [OF _ gs(2) tg, of 13 14] ewm_mean_nonneg [OF _ ls(2) tl, of 13 14]
  show ?thesis
    unfolding Avg_Gain_def Avg_Loss_def gs(1) ls(1) by auto
qed

lemma nth_RSI:
  "t < length cs \<Longrightarrow>
   RSI cs ! t =
     fsub (Fin 100) (fdiv (Fin 100) (fadd (Fin 1) (fdiv (Avg_Gain cs ! t) (Avg_Loss cs ! t))))"
  by (simp add: RSI_def RS_def Avg_Gain_def Avg_Loss_def Gain_def Loss_def length_Change)

lemma rsi_value_cases:
  assumes "0 \<le> g" "0 \<le> l"
  shows "fsub (Fin 100) (fdiv (Fin 100) (fadd (Fin 1) (fdiv (Fin g) (Fin l)))) =
         (if l = 0 then (if g = 0 then NaN else Fin 100) else Fin (100 - 100 / (1 + g / l)))"
proof -
  have "1 + g / l \<noteq> 0" if "l \<noteq> 0"
  proof -
    from assms have "0 \<le> g / l" by simp
    then show ?thesis by linarith
  qed
  with assms show ?thesis by auto
qed

lemma rsi_range:
  assumes "0 \<le> g" "0 < (l :: real)"
  shows "0 \<le> 100 - 100 / (1 + g / l)" and "100 - 100 / (1 + g / l) < 100"
proof -
  from assms have ge: "1 \<le> 1 + g / l" by simp
  then have "100 / (1 + g / l) \<le> 100"
    by (simp add: divide_le_eq)
  then show "0 \<le> 100 - 100 / (1 + g / l)" by simp
  from ge have "0 < 100 / (1 + g / l)" by simp
  then show "100 - 100 / (1 + g / l) < 100" by simp
qed

text \<open>
  Claim C5, as amended. On every row the RSI is NaN or lies between 0 and 100. Wherever
  the average loss is 0 and the average gain is positive it is 100; it is NaN on the first
  13 rows and wherever the average loss and the average gain are both 0. No branch of the
  code sets the value 100: it is what the division by a zero average loss yields when the
  average gain is positive. Nothing is stated about when else the value 100 is reached:
  over the exact reals of this model that is nowhere else, but a rounded
  \<open>100 - 100 / (1 + RS)\<close> reaches 100 also for a very small positive average loss.
\<close>

theorem rsi_bounds:
  "t < length cs \<longrightarrow>
     (RSI cs ! t = NaN \<or> (\<exists>r. RSI cs ! t = Fin r \<and> 0 \<le> r \<and> r \<le> 100)) \<and>
     (Avg_Loss cs ! t = Fin 0 \<and> (\<exists>g. 0 < g \<and> Avg_Gain cs ! t = Fin g) \<longrightarrow>
        RSI cs ! t = Fin 100) \<and>
     (RSI cs ! t = NaN) =
       (t < 13 \<or> Avg_Loss cs ! t = Fin 0 \<and> Avg_Gain cs ! t = Fin 0)"
proof
  assume t: "t < length cs"
  from averages_cases [OF t] consider
      "Avg_Gain cs ! t = NaN" "Avg_Loss cs ! t = NaN" "t < 13"
    | g l where "Avg_Gain cs ! t = Fin g" "Avg_Loss cs ! t = Fin l" "0 \<le> g" "0 \<le> l" "13 \<le> t"
    by blast
  then show "(RSI cs ! t = NaN \<or> (\<exists>r. RSI cs ! t = Fin r \<and> 0 \<le> r \<and> r \<le> 100)) \<and>
     (Avg_Loss cs ! t = Fin 0 \<and> (\<exists>g. 0 < g \<and> Avg_Gain cs ! t = Fin g) \<longrightarrow>
        RSI cs ! t = Fin 100) \<and>
     (RSI cs ! t = NaN) =
       (t < 13 \<or> Avg_Loss cs ! t = Fin 0 \<and> Avg_Gain cs ! t = Fin 0)"
  proof cases
    case 1
    then show ?thesis by (simp add: nth_RSI [OF t])
  next
    case 2
    note v = rsi_value_cases [OF 2(3,4)]
    show ?thesis
    proof (cases "l = 0")
      case True
      with 2 v show ?thesis by (auto simp: nth_RSI [OF t])
    next
      case False
      with 2(4) have "0 < l" by simp
      from rsi_range [OF 2(3) this] False 2 v show ?thesis
        by (auto simp: nth_RSI [OF t])
    qed
  qed
qed

lemma ball_take_conv:
  assumes "n \<le> length xs"
  shows "(\<forall>y\<in>set (take n xs). P y) = (\<forall>i<n. P (xs ! i))"
proof
  assume a: "\<forall>y\<in>set (take n xs). P y"
  show "\<forall>i<n. P (xs ! i)"
  proof (intro allI impI)
    fix i assume "i < n"
    with assms have "take n xs ! i \<in> set (take n xs)"
      by (intro nth_mem) simp
    with a \<open>i < n\<close> show "P (xs ! i)" by simp
  qed
next
  assume a: "\<forall>i<n. P (xs ! i)"
  show "\<forall>y\<in>set (take n xs). P y"
  proof
    fix y assume "y \<in> set (take n xs)"
    then obtain i where "i < length (take n xs)" "take n xs ! i = y"
      by (auto simp: in_set_conv_nth)
    with a show "P y" by auto
  qed
qed

lemma weighted_sum_eq_0_iff:
  assumes q: "0 < (q :: real)" and nonneg: "\<forall>y\<in>set ys. 0 \<le> y" and len: "length ys \<le> n"
  shows "(sum_list (map (\<lambda>(w, y). w * y) (zip (map (\<lambda>i. q ^ i) [0..<n]) ys)) = 0) =
         (\<forall>y\<in>set ys. y = 0)"
proof -
  let ?ps = "map (\<lambda>(w, y). w * y) (zip (map (\<lambda>i. q ^ i) [0..<n]) ys)"
  have L: "length ?ps = length ys"
    using len by simp
  have N: "?ps ! k = q ^ k * ys ! k" if "k < length ys" for k
    using that len by simp
  have "set ?ps = {?ps ! k | k. k < length ?ps}"
    by (rule set_conv_nth)
  also have "\<dots> = {q ^ k * ys ! k | k. k < length ys}"
    unfolding L using N by (intro Collect_cong) metis
  finally have elems: "set ?ps = {q ^ k * ys ! k | k. k < length ys}" .
  have "0 \<le> x" if "x \<in> set ?ps" for x
  proof -
    from that elems obtain k where "k < length ys" "x = q ^ k * ys ! k"
      by auto
    with q nonneg show ?thesis by simp
  qed
  then have "(sum_list ?ps = 0) = (\<forall>x\<in>set ?ps. x = 0)"
    by (rule sum_list_nonneg_eq_0_iff)
  also have "\<dots> = (\<forall>k<length ys. ys ! k = 0)"
    unfolding elems using q by auto
  also have "\<dots> = (\<forall>y\<in>set ys. y = 0)"
    using ball_take_conv [of "length ys" ys "\<lambda>y. y = 0"] by simp
  finally show ?thesis .
qed

lemma ewm_row_eq_0_iff:
  assumes "0 < c" "\<forall>y\<in>set ys. 0 \<le> y" "ys \<noteq> []"
  shows "(ewm_row c m (map Fin ys) = Fin 0) = (m \<le> length ys \<and> (\<forall>y\<in>set ys. y = 0))"
proof (cases "length ys < m")
  case True
  then show ?thesis by (simp add: ewm_row_Fin)
next
  case False
  let ?q = "1 - 1 / (1 + c)"
  from assms(1) have q: "0 < ?q" by simp
  have d: "1 \<le> sum_list (map (\<lambda>i. ?q ^ i) [0..<length ys])"
    by (intro weights_sum_ge_1) (use q assms(3) in simp_all)
  have "(sum_list (map (\<lambda>(w, y). w * y) (zip (map (\<lambda>i. ?q ^ i) [0..<length ys]) (rev ys))) = 0) =
        (\<forall>y\<in>set (rev ys). y = 0)"
    by (rule weighted_sum_eq_0_iff [OF q]) (use assms(2) in simp_all)
  with d False show ?thesis
    by (simp add: ewm_row_Fin)
qed

text \<open>The average loss is 0 exactly when the price has never fallen so far, the average
  gain is 0 exactly when it has never risen.\<close>

lemma Avg_Loss_eq_0_iff:
  assumes t: "t < length cs"
  shows "(Avg_Loss cs ! t = Fin 0) = (13 \<le> t \<and> (\<forall>i\<le>t. Loss cs ! i = Fin 0))"
proof -
  from Loss_shape obtain ls where ls: "Loss cs = map Fin ls" "\<forall>l\<in>set ls. 0 \<le> l"
    by blast
  from arg_cong [OF ls(1), of length] t have tl: "t < length ls"
    by (simp add: Loss_def length_Change)
  have nn: "\<forall>y\<in>set (take (Suc t) ls). 0 \<le> y"
    using ls(2) by (auto dest: in_set_takeD)
  have ne: "take (Suc t) ls \<noteq> []"
    using tl by auto
  have "(\<forall>y\<in>set (take (Suc t) ls). y = 0) = (\<forall>i\<le>t. ls ! i = 0)"
    using tl by (simp add: ball_take_conv less_Suc_eq_le Suc_leI)
  also have "\<dots> = (\<forall>i\<le>t. Loss cs ! i = Fin 0)"
    using tl by (auto simp: ls(1))
  finally have a: "(\<forall>y\<in>set (take (Suc t) ls). y = 0) = (\<forall>i\<le>t. Loss cs ! i = Fin 0)" .
  from ewm_row_eq_0_iff [OF _ nn ne, of 13 14] tl a show ?thesis
    by (simp add: Avg_Loss_def ls(1) nth_ewm_mean take_map min_absorb2 Suc_leI)
qed

lemma Avg_Gain_eq_0_iff:
  assumes t: "t < length cs"
  shows "(Avg_Gain cs ! t = Fin 0) = (13 \<le> t \<and> (\<forall>i\<le>t. Gain cs ! i = Fin 0))"
proof -
  from Gain_shape obtain gs where gs: "Gain cs = map Fin gs" "\<forall>g\<in>set gs. 0 \<le> g"
    by blast
  from arg_cong [OF gs(1), of length] t have tl: "t < length gs"
    by (simp add: Gain_def length_Change)
  have nn: "\<forall>y\<in>set (take (Suc t) gs). 0 \<le> y"
    using gs(2) by (auto dest: in_set_takeD)
  have ne: "take (Suc t) gs \<noteq> []"
    using tl by auto
  have "(\<forall>y\<in>set (take (Suc t) gs). y = 0) = (\<forall>i\<le>t. gs ! i = 0)"
    using tl by (simp add: ball_take_conv less_Suc_eq_le Suc_leI)
  also have "\<dots> = (\<forall>i\<le>t. Gain cs ! i = Fin 0)"
    using tl by (auto simp: gs(1))
  finally have a: "(\<forall>y\<in>set (take (Suc t) gs). y = 0) = (\<forall>i\<le>t. Gain cs ! i = Fin 0)" .
  from ewm_row_eq_0_iff [OF _ nn ne, of 13 14] tl a show ?thesis
    by (simp add: Avg_Gain_def gs(1) nth_ewm_mean take_map min_absorb2 Suc_leI)
qed

text \<open>
  The claim as stated fails on a flat series: after 14 equal closes the average loss is 0
  and the RSI is NaN, not 100.
\<close>

theorem rsi_nan_on_flat_prices:
  "Avg_Loss (replicate 14 100) ! 13 = Fin 0 \<and> RSI (replicate 14 100) ! 13 = NaN"
proof -
  have l: "Avg_Loss (replicate 14 100) ! 13 = Fin 0"
    by (simp add: Avg_Loss_eq_0_iff nth_Loss)
  have g: "Avg_Gain (replicate 14 100) ! 13 = Fin 0"
    by (simp add: Avg_Gain_eq_0_iff nth_Gain)
  show ?thesis
    by (simp add: nth_RSI l g)
qed

theorem rsi_bounds_witness:
  "RSI (100 # replicate 13 101) ! 13 = Fin 100"
proof -
  have l: "Avg_Loss (100 # replicate 13 101) ! 13 = Fin 0"
    by (auto simp add: Avg_Loss_eq_0_iff nth_Loss nth_Cons split: nat.split)
  have "Gain (100 # replicate 13 101) ! 1 \<noteq> Fin 0"
    by (simp add: nth_Gain)
  then have "\<not> (\<forall>i\<le>13. Gain (100 # replicate 13 101) ! i = Fin 0)"
    by (metis one_le_numeral)
  then have "Avg_Gain (100 # replicate 13 101) ! 13 \<noteq> Fin 0"
    by (simp add: Avg_Gain_eq_0_iff)
  with averages_cases [of 13 "100 # replicate 13 101"]
  have g: "\<exists>g. 0 < g \<and> Avg_Gain (100 # replicate 13 101) ! 13 = Fin g"
    by auto
  from rsi_bounds [of 13 "100 # replicate 13 101"] l g show ?thesis
    by simp
qed

subsection \<open>Warm-up rows\<close>

lemma RSI_warmup: "t < length cs \<Longrightarrow> t < 13 \<Longrightarrow> RSI cs ! t = NaN"
  using averages_cases [of t cs] by (auto simp: nth_RSI)

lemma Signal_warmup: "t < length cs \<Longrightarrow> t < 49 \<Longrightarrow> Signal cs ! t = Fin 0"
  by (simp add: Signal_def SMA_10_v2_def SMA_50_v2_def length_RSI nth_rolling_mean fgt_def)

text \<open>
  BacktesterV1 removes exactly the first 49 rows, those on which \<open>SMA_10\<close> or
  \<open>SMA_50\<close> is NaN (line 18): its signal, return series, cumulative series and drawdown
  have one row per remaining row, and both averages are defined on each of them.
  BacktesterV2 removes no row: its signal, return series, cumulative series and drawdown
  have one row per bar; \<open>SMA_10\<close> is NaN on the first 9 rows, \<open>SMA_50\<close> on the first 49,
  the RSI on the first 13, and the signal is 0 on the first 49 rows.
\<close>

lemma warmup_rows_of_frames:
  "frame_v1 cs = drop 49 (rows_v1 cs) \<and>
   (\<forall>i<length cs. (isnan (rolling_mean 10 cs ! i) \<or> isnan (rolling_mean 50 cs ! i)) = (i < 49)) \<and>
   (\<forall>t<length cs - 49.
      SMA_10_v1 cs ! t = rolling_mean 10 cs ! (t + 49) \<and> \<not> isnan (SMA_10_v1 cs ! t) \<and>
      SMA_50_v1 cs ! t = rolling_mean 50 cs ! (t + 49) \<and> \<not> isnan (SMA_50_v1 cs ! t)) \<and>
   length (Position cs) = length cs - 49 \<and>
   length (daily_returns cs) = length cs - 49 \<and>
   length (strategy_returns cs) = length cs - 49 \<and>
   length (cumulative_returns cs) = length cs - 49 \<and>
   length (buy_hold_returns cs) = length cs - 49 \<and>
   length (Drawdown_v1 cs) = length cs - 49 \<and>
   length (Signal cs) = length cs \<and>
   length (Market_returns cs) = length cs \<and>
   length (Strategy_returns cs) = length cs \<and>
   length (Cumulative_market cs) = length cs \<and>
   length (Cumulative_strategy cs) = length cs \<and>
   length (Drawdown_v2 cs) = length cs \<and>
   (\<forall>t<length cs.
      isnan (SMA_10_v2 cs ! t) = (t < 9) \<and> isnan (SMA_50_v2 cs ! t) = (t < 49) \<and>
      (t < 13 \<longrightarrow> isnan (RSI cs ! t)) \<and> (t < 49 \<longrightarrow> Signal cs ! t = Fin 0))"
proof -
  have a: "\<forall>i<length cs. (isnan (rolling_mean 10 cs ! i) \<or> isnan (rolling_mean 50 cs ! i)) = (i < 49)"
    by (auto simp: nth_rolling_mean)
  have b: "\<forall>t<length cs - 49.
      SMA_10_v1 cs ! t = rolling_mean 10 cs ! (t + 49) \<and> \<not> isnan (SMA_10_v1 cs ! t) \<and>
      SMA_50_v1 cs ! t = rolling_mean 50 cs ! (t + 49) \<and> \<not> isnan (SMA_50_v1 cs ! t)"
    by (simp add: SMA_10_v1_eq SMA_50_v1_eq nth_rolling_mean add.commute)
  have c: "\<forall>t<length cs.
      isnan (SMA_10_v2 cs ! t) = (t < 9) \<and> isnan (SMA_50_v2 cs ! t) = (t < 49) \<and>
      (t < 13 \<longrightarrow> isnan (RSI cs ! t)) \<and> (t < 49 \<longrightarrow> Signal cs ! t = Fin 0)"
    by (auto simp: SMA_10_v2_def SMA_50_v2_def nth_rolling_mean RSI_warmup Signal_warmup)
  show ?thesis
    using a b c
    by (simp only: frame_v1_drop length_Position length_daily_returns length_strategy_returns
        length_cumulative_returns length_buy_hold_returns length_Drawdown_v1 length_Signal
        length_Market_returns length_Strategy_returns length_Cumulative_market
        length_Cumulative_strategy length_Drawdown_v2 simp_thms)
qed

lemma warmup_values_v2:
  "length (dropna (Strategy_returns (replicate 49 1 @ [2, 3]))) = 50"
proof -
  have pos: "\<forall>c\<in>set (replicate 49 1 @ [2, 3 :: real]). 0 < c"
    by auto
  from Strategy_returns_shape [OF pos] obtain ss
    where ss: "Strategy_returns (replicate 49 1 @ [2, 3]) = NaN # map Fin ss"
    by auto
  from arg_cong [OF ss, of length] have "length ss = 50"
    by (simp add: length_Strategy_returns)
  then show ?thesis
    by (simp add: ss)
qed

lemma warmup_values_v1:
  "length (dropna (strategy_returns (replicate 49 1 @ [2, 3]))) = 1"
proof -
  have pos: "\<forall>c\<in>set (replicate 49 1 @ [2, 3 :: real]). 0 < c"
    by auto
  from strategy_returns_shape [OF pos] obtain ss
    where ss: "strategy_returns (replicate 49 1 @ [2, 3]) = NaN # map Fin ss"
    by auto
  from arg_cong [OF ss, of length] have "length ss = 1"
    by (simp add: length_strategy_returns)
  then show ?thesis
    by (simp add: ss)
qed

text \<open>
  Claim C8, on BacktesterV2. The claim asks that the warm-up rows, on which an indicator
  is still undefined, are excluded from the signal, the return series, the cumulative
  series and the metrics. BacktesterV1 does that: it drops them after adding the averages
  (lines 17 and 18, \<open>warmup_rows_of_frames\<close>). BacktesterV2 has no such \<open>dropna\<close>. On
  49 closes of 1 followed by 2 and 3, BacktesterV1 keeps the two rows on which both
  averages are defined and has one strategy return to take its metrics from. BacktesterV2
  keeps all 51 rows in every column: on the first of them all three indicators are NaN,
  on the 49th the slow average still is; the signal of these rows is 0, their strategy
  return enters the return series as 0, and the mean and the standard deviation of the
  Sharpe ratio run over 50 values, 48 of them from warm-up rows.
\<close>

theorem warmup_rows_kept_v2:
  "length (frame_v1 (replicate 49 1 @ [2, 3])) = 2 \<and>
   length (strategy_returns (replicate 49 1 @ [2, 3])) = 2 \<and>
   length (dropna (strategy_returns (replicate 49 1 @ [2, 3]))) = 1 \<and>
   SMA_10_v2 (replicate 49 1 @ [2, 3]) ! 0 = NaN \<and>
   SMA_50_v2 (replicate 49 1 @ [2, 3]) ! 0 = NaN \<and>
   RSI (replicate 49 1 @ [2, 3]) ! 0 = NaN \<and>
   SMA_50_v2 (replicate 49 1 @ [2, 3]) ! 48 = NaN \<and>
   length (Signal (replicate 49 1 @ [2, 3])) = 51 \<and>
   Signal (replicate 49 1 @ [2, 3]) ! 0 = Fin 0 \<and>
   Signal (replicate 49 1 @ [2, 3]) ! 48 = Fin 0 \<and>
   length (Strategy_returns (replicate 49 1 @ [2, 3])) = 51 \<and>
   Strategy_returns (replicate 49 1 @ [2, 3]) ! 1 = Fin 0 \<and>
   length (Cumulative_market (replicate 49 1 @ [2, 3])) = 51 \<and>
   length (Cumulative_strategy (replicate 49 1 @ [2, 3])) = 51 \<and>
   Cumulative_strategy (replicate 49 1 @ [2, 3]) ! 0 = Fin 1 \<and>
   length (Drawdown_v2 (replicate 49 1 @ [2, 3])) = 51 \<and>
   length (dropna (Strategy_returns (replicate 49 1 @ [2, 3]))) = 50"
proof -
  have sr: "Strategy_returns (replicate 49 1 @ [2, 3]) ! 1 = Fin 0"
    by (simp add: Strategy_returns_def Market_returns_def Close_v2_def length_Signal nth_shift1
        nth_pct_change Signal_warmup nth_append)
  have cs: "Cumulative_strategy (replicate 49 1 @ [2, 3]) ! 0 = Fin 1"
    using fill_then_compound_v2 [of "replicate 49 1 @ [2, 3]" 0] by simp
  show ?thesis
    using sr cs warmup_values_v2 warmup_values_v1
    by (simp add: length_frame_v1 length_strategy_returns length_Signal length_Strategy_returns
        length_Cumulative_market length_Cumulative_strategy length_Drawdown_v2
        SMA_10_v2_def SMA_50_v2_def nth_rolling_mean RSI_warmup Signal_warmup)
qed

subsection \<open>No look-ahead\<close>






















subsection \<open>The Sharpe ratio\<close>

lemma sharpe_guard:
  "sharpe cs =
     (if fgt (std (Strategy_returns cs)) (Fin 0)
      then fmul (fdiv (mean (Strategy_returns cs)) (std (Strategy_returns cs))) (Fin (sqrt 252))
      else Fin 0)"
  by (simp add: sharpe_def Let_def)

lemma sharpe_zero_std: "std (Strategy_returns cs) = Fin 0 \<Longrightarrow> sharpe cs = Fin 0"
  by (simp add: sharpe_guard fgt_def)

lemma sharpe_undefined_std: "std (Strategy_returns cs) = NaN \<Longrightarrow> sharpe cs = Fin 0"
  by (simp add: sharpe_guard fgt_def)

lemma annual_sharpe_eq:
  "annual_sharpe cs =
     fmul (fdiv (mean (strategy_returns cs)) (std (strategy_returns cs))) (Fin (sqrt 252))"
  by (simp add: annual_sharpe_def Let_def)

lemma flat_strategy_returns_v1:
  "strategy_returns (replicate 49 100 @ [100, 100, 100]) = [NaN, Fin 0, Fin 0]"
  by (simp add: strategy_returns_def daily_returns_def Close_v1_eq Position_def SMA_10_v1_eq
      SMA_50_v1_eq rolling_mean_def pct_change_def shift1_def drop_map upt_conv_Cons fgt_def
      sum_list_replicate)

lemma flat_Strategy_returns_v2: "Strategy_returns [100, 100, 100] = [NaN, Fin 0, Fin 0]"
proof -
  have sig: "Signal [100, 100, 100] = [Fin 0, Fin 0, Fin 0]"
    by (rule nth_equalityI) (simp_all add: length_Signal Signal_warmup nth_Cons split: nat.split)
  show ?thesis
    by (simp add: Strategy_returns_def Market_returns_def Close_v2_def pct_change_def sig
        shift1_def)
qed

lemma flat_mean: "mean [NaN, Fin 0, Fin 0] = Fin 0"
  by (simp add: mean_def dropna_def fsum_def)

lemma flat_std: "std [NaN, Fin 0, Fin 0] = Fin 0"
  by (simp add: std_def mean_def dropna_def fsum_def)

text \<open>
  Claim C4. BacktesterV2 reports \<open>mean / std * sqrt 252\<close> when the standard deviation of
  the strategy returns is positive and 0 otherwise (\<open>sharpe_guard\<close>, \<open>sharpe_zero_std\<close>).
  BacktesterV1 divides without the guard. On a flat series of 52 closes its strategy
  returns are 0 on both rows that have one, their standard deviation is 0 and the reported
  Sharpe ratio is \<open>0 / 0\<close>, NaN; BacktesterV2 reports 0 on a flat series.
\<close>

theorem sharpe_nan_on_flat_prices_v1:
  "std (strategy_returns (replicate 49 100 @ [100, 100, 100])) = Fin 0 \<and>
   annual_sharpe (replicate 49 100 @ [100, 100, 100]) = NaN \<and>
   sharpe [100, 100, 100] = Fin 0"
  by (simp add: annual_sharpe_eq flat_strategy_returns_v1 flat_mean flat_std
      sharpe_zero_std flat_Strategy_returns_v2)

section \<open>Properties of the news aggregator\<close>

lemma main_loop_eq:
  "main_loop E wl (all_news, out) =
     (all_news @ concat (map (results_of E) wl), out @ concat (map (lines_of E) wl))"
proof (induction wl arbitrary: all_news out)
  case Nil
  then show ?case by simp
next
  case (Cons p wl)
  obtain name tk where p: "p = (name, tk)"
    by (cases p)
  show ?case
    by (cases "get_news E name tk") (simp_all add: p Cons.IH results_of_def lines_of_def)
qed

lemma fst_main_loop: "fst (main_loop E wl ([], [])) = concat (map (results_of E) wl)"
  by (simp add: main_loop_eq)

lemma printed_eq: "printed E wl = concat (map (lines_of E) wl)"
  by (simp add: printed_def main_loop_eq)

lemma mset_sort_desc [simp]: "mset (sort_desc xs) = mset xs"
  by (simp add: sort_desc_def)

lemma set_sort_desc [simp]: "set (sort_desc xs) = set xs"
  by (simp add: sort_desc_def)

lemma set_all_market_news:
  "set (all_market_news E wl) = (\<Union>p\<in>set wl. set (results_of E p))"
  by (simp add: all_market_news_def fst_main_loop)

lemma get_news_empty: "news E tk = Inr v \<Longrightarrow> \<not> truthy v \<Longrightarrow> get_news E name tk = Inr []"
  by (simp add: get_news_def)

lemma get_news_raises: "news E tk = Inl e \<Longrightarrow> get_news E name tk = Inl e"
  by (simp add: get_news_def)

lemma results_kept:
  assumes "(name, tk) \<in> set wl" "get_news E name tk = Inr results"
  shows "set results \<subseteq> set (all_market_news E wl)"
proof -
  from assms(2) have "results_of E (name, tk) = results"
    by (simp add: results_of_def)
  with assms(1) show ?thesis
    unfolding set_all_market_news by blast
qed

lemma error_printed:
  assumes "(name, tk) \<in> set wl" "get_news E name tk = Inl e"
  shows "ErrorOn tk e \<in> set (printed E wl)"
proof -
  from assms(2) have "ErrorOn tk e \<in> set (lines_of E (name, tk))"
    by (simp add: lines_of_def)
  with assms(1) show ?thesis
    unfolding printed_eq set_concat set_map by blast
qed

lemma nothing_from_failed:
  assumes "get_news E name tk = Inl e"
  shows "results_of E (name, tk) = []"
  using assms by (simp add: results_of_def)

text \<open>
  Claim C9, as amended. The master list holds, in the order of the watchlist, the cleaned
  records of every ticker whose \<open>get_news\<close> returned, and nothing else; the sorted list
  holds the same records. A ticker whose \<open>get_news\<close> raised adds no record, and its
  error is printed as a line of its own. \<open>get_news\<close> raises when the news source does,
  and returns the empty list on an empty response. The loop itself never raises: it is a
  total function of the watchlist.
\<close>

theorem batch_resilience:
  "fst (main_loop E wl ([], [])) = concat (map (results_of E) wl) \<and>
   mset (all_market_news E wl) = mset (concat (map (results_of E) wl)) \<and>
   (\<forall>name tk results. (name, tk) \<in> set wl \<and> get_news E name tk = Inr results \<longrightarrow>
      results_of E (name, tk) = results \<and> set results \<subseteq> set (all_market_news E wl)) \<and>
   (\<forall>name tk e. (name, tk) \<in> set wl \<and> get_news E name tk = Inl e \<longrightarrow>
      results_of E (name, tk) = [] \<and> ErrorOn tk e \<in> set (printed E wl)) \<and>
   (\<forall>name tk e. news E tk = Inl e \<longrightarrow> get_news E name tk = Inl e) \<and>
   (\<forall>name tk v. news E tk = Inr v \<and> \<not> truthy v \<longrightarrow> get_news E name tk = Inr [])"
proof -
  have a: "mset (all_market_news E wl) = mset (concat (map (results_of E) wl))"
    by (simp add: all_market_news_def fst_main_loop)
  have b: "\<forall>name tk results. (name, tk) \<in> set wl \<and> get_news E name tk = Inr results \<longrightarrow>
      results_of E (name, tk) = results \<and> set results \<subseteq> set (all_market_news E wl)"
    using results_kept [of _ _ wl E] by (auto simp add: results_of_def)
  have c: "\<forall>name tk e. (name, tk) \<in> set wl \<and> get_news E name tk = Inl e \<longrightarrow>
      results_of E (name, tk) = [] \<and> ErrorOn tk e \<in> set (printed E wl)"
    using error_printed nothing_from_failed by blast
  have d: "\<forall>name tk e. news E tk = Inl e \<longrightarrow> get_news E name tk = Inl e"
    using get_news_raises by blast
  have e: "\<forall>name tk v. news E tk = Inr v \<and> \<not> truthy v \<longrightarrow> get_news E name tk = Inr []"
    using get_news_empty by blast
  from fst_main_loop a b c d e show ?thesis
    by blast
qed

text \<open>
  The claim as stated fails: the error of a failing ticker is printed, it is not put into
  the result. With a news source that is down for TSLA and has one story for GOOGL, the
  sorted master list is the one record of GOOGL and holds nothing for TSLA; the marker of
  TSLA is the third printed line.
\<close>

theorem failed_ticker_only_printed:
  "all_market_news
     \<lparr>news = (\<lambda>tk. if tk = ''TSLA'' then Inl (UpstreamError ''down'')
                     else Inr (JList [JDict [(''title'', JStr ''Hi'')]])),
      fromtimestamp = (\<lambda>x. None), fromisoformat = (\<lambda>s. None), str = (\<lambda>v. [])\<rparr>
     [(''Google'', ''GOOGL''), (''Tesla'', ''TSLA'')] =
     [\<lparr>company = ''Google'', ticker = ''GOOGL'', headline = JStr ''Hi'',
       time = ''Unknown Time''\<rparr>] \<and>
   printed
     \<lparr>news = (\<lambda>tk. if tk = ''TSLA'' then Inl (UpstreamError ''down'')
                     else Inr (JList [JDict [(''title'', JStr ''Hi'')]])),
      fromtimestamp = (\<lambda>x. None), fromisoformat = (\<lambda>s. None), str = (\<lambda>v. [])\<rparr>
     [(''Google'', ''GOOGL''), (''Tesla'', ''TSLA'')] =
     [Fetching ''Google'' ''GOOGL'', Fetching ''Tesla'' ''TSLA'',
      ErrorOn ''TSLA'' (UpstreamError ''down'')]"
  by (simp add: all_market_news_def printed_def get_news_def clean_story_def raw_time_def
      headline_of_def time_str_def sort_desc_def)

theorem batch_resilience_witness:
  "ErrorOn ''TSLA'' (UpstreamError ''down'') \<in> set (printed
     \<lparr>news = (\<lambda>tk. if tk = ''TSLA'' then Inl (UpstreamError ''down'')
                     else Inr (JList [JDict [(''title'', JStr ''Hi'')]])),
      fromtimestamp = (\<lambda>x. None), fromisoformat = (\<lambda>s. None), str = (\<lambda>v. [])\<rparr>
     [(''Google'', ''GOOGL''), (''Tesla'', ''TSLA'')]) \<and>
   \<lparr>company = ''Google'', ticker = ''GOOGL'', headline = JStr ''Hi'',
     time = ''Unknown Time''\<rparr> \<in> set (all_market_news
     \<lparr>news = (\<lambda>tk. if tk = ''TSLA'' then Inl (UpstreamError ''down'')
                     else Inr (JList [JDict [(''title'', JStr ''Hi'')]])),
      fromtimestamp = (\<lambda>x. None), fromisoformat = (\<lambda>s. None), str = (\<lambda>v. [])\<rparr>
     [(''Google'', ''GOOGL''), (''Tesla'', ''TSLA'')])"
proof -
  let ?E = "\<lparr>news = (\<lambda>tk. if tk = ''TSLA'' then Inl (UpstreamError ''down'')
                     else Inr (JList [JDict [(''title'', JStr ''Hi'')]])),
      fromtimestamp = (\<lambda>x. None), fromisoformat = (\<lambda>s. None), str = (\<lambda>v. [])\<rparr>"
  let ?wl = "[(''Google'', ''GOOGL''), (''Tesla'', ''TSLA'')]"
  have bad: "get_news ?E ''Tesla'' ''TSLA'' = Inl (UpstreamError ''down'')"
    by (simp add: get_news_def)
  have good: "get_news ?E ''Google'' ''GOOGL'' =
      Inr [\<lparr>company = ''Google'', ticker = ''GOOGL'', headline = JStr ''Hi'',
             time = ''Unknown Time''\<rparr>]"
    by (simp add: get_news_def clean_story_def raw_time_def headline_of_def time_str_def)
  have mem: "(''Tesla'', ''TSLA'') \<in> set ?wl" "(''Google'', ''GOOGL'') \<in> set ?wl"
    by simp_all
  note r = batch_resilience [of ?E ?wl]
  from r mem(1) bad have "ErrorOn ''TSLA'' (UpstreamError ''down'') \<in> set (printed ?E ?wl)"
    by blast
  moreover from r mem(2) good
  have "set [\<lparr>company = ''Google'', ticker = ''GOOGL'', headline = JStr ''Hi'',
             time = ''Unknown Time''\<rparr>] \<subseteq> set (all_market_news ?E ?wl)"
    by blast
  ultimately show ?thesis by simp
qed

subsection \<open>Formatted timestamps as strings\<close>














lemma length_pad2 [simp]: "length (pad2 n) = 2"
  by (simp add: pad2_def)






subsection \<open>The order of the final list\<close>


















end
